theory Spec2Isabelle
  imports Main
begin

section \<open>Data model of the snapshot builder\<close>

text \<open>
  The theory embeds \<^verbatim>\<open>src/lexer/lexerSnapshot.ts\<close>: the flattening of the per-line tokens of
  a lexer state, the stitching of multiline fragments into whole tokens and comments, the
  computation of the line substring used for grapheme positions, and the public entry point
  \<^verbatim>\<open>LexerSnapshot.tryFrom\<close>.

  A JavaScript string is a sequence of UTF-16 code units; it is modelled as a \<^typ>\<open>string\<close>,
  one list element per code unit, so that \<^term>\<open>length\<close> is \<^verbatim>\<open>.length\<close> and offsets count
  list elements. No operation of the snapshot builder looks at the value of a code unit; the
  one function that does, \<^verbatim>\<open>graphemePositionFrom\<close>, is a parameter. Offsets, indices and
  line numbers are non-negative integers, modelled as \<^typ>\<open>nat\<close>.
\<close>

subsection \<open>Token kinds\<close>

text \<open>
  Modelled from the spec: the enumerations \<^verbatim>\<open>TokenKind\<close> and \<^verbatim>\<open>LineTokenKind\<close> are declared in
  \<^verbatim>\<open>token.ts\<close>, which is not among the sources. \<^verbatim>\<open>TokenKind\<close> holds the single-line kinds;
  the two members that the snapshot builder names are constructors of their own, every other
  member (\<^verbatim>\<open>HexLiteral\<close>, \<^verbatim>\<open>KeywordAnd\<close>, \<^verbatim>\<open>Comma\<close>, ...) is \<open>OtherTokenKind\<close> of its name.
  \<^verbatim>\<open>LineTokenKind\<close> mirrors \<^verbatim>\<open>TokenKind\<close> one to one (\<open>SingleLine\<close>) and adds the two
  comment kinds and the nine fragment kinds. The source calls the text literal kinds
  \<^verbatim>\<open>StringLiteral\<close>, \<^verbatim>\<open>StringLiteralStart\<close>, \<^verbatim>\<open>StringLiteralContent\<close>, \<^verbatim>\<open>StringLiteralEnd\<close>.
\<close>

datatype TokenKind =
    Identifier
  | StringLiteral
  | OtherTokenKind string

datatype LineTokenKind =
    SingleLine TokenKind
  | LineComment
  | MultilineComment
  | MultilineCommentStart
  | MultilineCommentContent
  | MultilineCommentEnd
  | StringLiteralStart
  | StringLiteralContent
  | StringLiteralEnd
  | QuotedIdentifierStart
  | QuotedIdentifierContent
  | QuotedIdentifierEnd

text \<open>
  Both enumerations are string enumerations and the cast
  \<^verbatim>\<open>(flatToken.kind as unknown) as TokenKind\<close> is erased at run time, so the \<^verbatim>\<open>kind\<close> of a
  snapshot token is the \<^verbatim>\<open>LineTokenKind\<close> value it was built from. A snapshot token therefore
  carries a \<^typ>\<open>LineTokenKind\<close>, and \<open>isTokenKind\<close> says that the value is a member of
  \<^verbatim>\<open>TokenKind\<close>.
\<close>

fun isTokenKind :: "LineTokenKind \<Rightarrow> bool" where
  "isTokenKind (SingleLine k) = True"
| "isTokenKind _ = False"

datatype CommentKind = Line | Multiline

subsection \<open>Positions, tokens and comments\<close>

record TokenPosition =
  codeUnit :: nat
  lineCodeUnit :: nat
  lineNumber :: nat

text \<open>\<^verbatim>\<open>IToken<Kind, Position>\<close>: line tokens carry line-relative offsets, flat tokens and
  snapshot tokens carry a \<^typ>\<open>TokenPosition\<close>.\<close>

record ('k, 'p) IToken =
  kind :: 'k
  data :: string
  positionStart :: 'p
  positionEnd :: 'p

type_synonym LineToken = "(LineTokenKind, nat) IToken"

type_synonym Token = "(LineTokenKind, TokenPosition) IToken"

record FlatLineToken = "(LineTokenKind, TokenPosition) IToken" +
  flatIndex :: nat

record Comment = "(CommentKind, TokenPosition) IToken" +
  containsNewline :: bool

record LineTerminator =
  codeUnit :: nat
  "text" :: string

subsection \<open>Lexer state\<close>

text \<open>
  Modelled from the spec: \<^verbatim>\<open>Lexer.State\<close> and \<^verbatim>\<open>Lexer.TLine\<close> are declared in \<^verbatim>\<open>lexer.ts\<close>,
  which is not among the sources. A line has a status, its text, its line terminator, its
  line tokens and the lex modes at its two ends; a state is the sequence of its lines.
\<close>

datatype LineKind = Touched | Untouched | TouchedWithError | Error

datatype LexMode = Default | CommentMode | TextMode | QuotedIdentifierMode

record TLine =
  kind :: LineKind
  "text" :: string
  lineTerminator :: string
  tokens :: "LineToken list"
  modeStart :: LexMode
  modeEnd :: LexMode

record State =
  lines :: "TLine list"

subsection \<open>Results of the builder\<close>

record FlattenedLines =
  "text" :: string
  lineTerminators :: "LineTerminator list"
  flatLineTokens :: "FlatLineToken list"

record ConcatenatedCommentRead =
  comment :: Comment
  flatIndexEnd :: nat

record ConcatenatedTokenRead =
  token :: Token
  flatIndexEnd :: nat

record FlatLineCollection =
  tokenStart :: FlatLineToken
  collectedTokens :: "FlatLineToken list"
  maybeTokenEnd :: "FlatLineToken option"

record LexerSnapshot =
  "text" :: string
  tokens :: "Token list"
  comments :: "Comment list"
  lineTerminators :: "LineTerminator list"

subsection \<open>Errors\<close>

text \<open>
  Modelled from the spec: the error classes are declared in \<^verbatim>\<open>lexer/error.ts\<close> and
  \<^verbatim>\<open>common/error.ts\<close>, which are not among the sources. The two classes that the snapshot
  builder throws are the first two constructors of \<open>Thrown\<close>: an unterminated multiline token
  with its grapheme position and kind, and an invariant error with its message and the token
  found in place of the paired end. The third constructor is a value thrown by
  \<^verbatim>\<open>StringHelpers.graphemePositionFrom\<close> while the builder runs; it is not one of the error
  classes of the lexer. \<^verbatim>\<open>TLexerError\<close> is the error type of the result: a \<^verbatim>\<open>LexerError\<close>
  around an inner lexer error, or a \<^verbatim>\<open>CommonError\<close> around anything else.
  The type \<open>'g\<close> is \<^verbatim>\<open>StringHelpers.GraphemePosition\<close>, the type \<open>'x\<close> that of the values
  thrown by \<^verbatim>\<open>StringHelpers.graphemePositionFrom\<close>.
\<close>

datatype UnterminatedMultilineTokenKind =
    UnterminatedMultilineComment
  | UnterminatedQuotedIdentifier
  | UnterminatedString

datatype ('g, 'x) Thrown =
    UnterminatedMultilineTokenError 'g UnterminatedMultilineTokenKind
  | InvariantError string FlatLineToken
  | HelperError 'x

datatype ('g, 'x) TLexerError =
    LexerError "('g, 'x) Thrown"
  | CommonError "('g, 'x) Thrown"

datatype ('a, 'e) Result = Ok 'a | Err 'e

fun isTInnerLexerError :: "('g, 'x) Thrown \<Rightarrow> bool" where
  "isTInnerLexerError (UnterminatedMultilineTokenError p k) = True"
| "isTInnerLexerError (InvariantError m d) = False"
| "isTInnerLexerError (HelperError x) = False"

text \<open>
  Modelled from the spec: \<^verbatim>\<open>LexerError.isTInnerLexerError\<close> (above) and
  \<^verbatim>\<open>CommonError.ensureCommonError\<close> are declared in the two error files. The first tells the
  error classes of the lexer from all others; the second returns the \<^verbatim>\<open>CommonError\<close> envelope
  of the caught value.
\<close>

definition ensureCommonError :: "('g, 'x) Thrown \<Rightarrow> ('g, 'x) TLexerError" where
  "ensureCommonError e = CommonError e"

section \<open>Operations\<close>

subsection \<open>Strings\<close>

text \<open>\<^verbatim>\<open>String.prototype.substring\<close>: both indices are clamped to the length of the string and
  swapped when the first is the larger.\<close>

definition substring :: "string \<Rightarrow> nat \<Rightarrow> nat \<Rightarrow> string" where
  "substring s indexStart indexEnd =
     (let a = min indexStart (length s);
          b = min indexEnd (length s)
      in take (max a b - min a b) (drop (min a b) s))"

subsection \<open>Flattening\<close>

text \<open>The inner loop of \<^verbatim>\<open>flattenLineTokens\<close> over the tokens of one line; it returns the
  extended array of flat tokens and the next flat index.\<close>

fun flattenTokensLoop ::
  "LineToken list \<Rightarrow> nat \<Rightarrow> nat \<Rightarrow> FlatLineToken list \<Rightarrow> nat \<Rightarrow> FlatLineToken list \<times> nat"
where
  "flattenTokensLoop [] lineTextOffset lineNo flat idx = (flat, idx)"
| "flattenTokensLoop (lineToken # rest) lineTextOffset lineNo flat idx =
     flattenTokensLoop rest lineTextOffset lineNo
       (flat @
        [\<lparr> IToken.kind = IToken.kind lineToken,
           data = data lineToken,
           positionStart =
             \<lparr> TokenPosition.codeUnit = lineTextOffset + positionStart lineToken,
               lineCodeUnit = positionStart lineToken,
               lineNumber = lineNo \<rparr>,
           positionEnd =
             \<lparr> TokenPosition.codeUnit = lineTextOffset + positionEnd lineToken,
               lineCodeUnit = positionEnd lineToken,
               lineNumber = lineNo \<rparr>,
           flatIndex = idx \<rparr>])
       (idx + 1)"

text \<open>The outer loop over the lines. Its arguments are the lines from \<open>lineNo\<close> on, the
  loop counter, \<^verbatim>\<open>numLines\<close>, and the variables \<^verbatim>\<open>text\<close>, \<^verbatim>\<open>lineTerminators\<close>,
  \<^verbatim>\<open>flatLineTokens\<close>, \<^verbatim>\<open>lineTextOffset\<close> and \<^verbatim>\<open>flatIndex\<close>. The loop body runs only when
  \<open>numLines\<close> is positive, so the truncated \<open>numLines - 1\<close> is the source's.\<close>

fun flattenLinesLoop ::
  "TLine list \<Rightarrow> nat \<Rightarrow> nat \<Rightarrow> string \<Rightarrow> LineTerminator list \<Rightarrow> FlatLineToken list \<Rightarrow>
   nat \<Rightarrow> nat \<Rightarrow> FlattenedLines"
where
  "flattenLinesLoop [] lineNo numLines txt terms flat lineTextOffset idx =
     \<lparr> FlattenedLines.text = txt, lineTerminators = terms, flatLineTokens = flat \<rparr>"
| "flattenLinesLoop (line # rest) lineNo numLines txt terms flat lineTextOffset idx =
     (let txt1 = txt @ TLine.text line;
          txt2 = (if lineNo \<noteq> numLines - 1 then txt1 @ lineTerminator line else txt1);
          (flat', idx') = flattenTokensLoop (TLine.tokens line) lineTextOffset lineNo flat idx;
          lineTerminatorCodeUnit = lineTextOffset + length (TLine.text line);
          terms' = terms @
            [\<lparr> LineTerminator.codeUnit = lineTerminatorCodeUnit,
               LineTerminator.text = lineTerminator line \<rparr>]
      in flattenLinesLoop rest (lineNo + 1) numLines txt2 terms' flat'
           (lineTerminatorCodeUnit + length (lineTerminator line)) idx')"

definition flattenLineTokens :: "State \<Rightarrow> FlattenedLines" where
  "flattenLineTokens state =
     flattenLinesLoop (lines state) 0 (length (lines state)) [] [] [] 0 0"

subsection \<open>Grapheme position of a token\<close>

text \<open>The loop of \<^verbatim>\<open>graphemePositionStartFrom\<close> over the line terminators, with its
  \<^verbatim>\<open>break\<close>; the state is the pair \<^verbatim>\<open>(substringPositionStart, substringPositionEnd)\<close>.\<close>

fun substringBoundsLoop :: "LineTerminator list \<Rightarrow> nat \<Rightarrow> nat \<Rightarrow> nat \<times> nat \<Rightarrow> nat \<times> nat" where
  "substringBoundsLoop [] startUnit endUnit (s, e) = (s, e)"
| "substringBoundsLoop (lt # rest) startUnit endUnit (s, e) =
     (let s' = (if LineTerminator.codeUnit lt < startUnit
                then LineTerminator.codeUnit lt + length (LineTerminator.text lt) else s)
      in if LineTerminator.codeUnit lt \<ge> endUnit
         then (s', LineTerminator.codeUnit lt + length (LineTerminator.text lt))
         else substringBoundsLoop rest startUnit endUnit (s', e))"

text \<open>
  \<^verbatim>\<open>StringHelpers.graphemePositionFrom\<close> is declared in \<^verbatim>\<open>common/stringHelpers.ts\<close>, which is
  not among the sources; it is the parameter \<open>gpf\<close> of every operation that reaches it, a
  function of the line substring, \<^verbatim>\<open>lineCodeUnit\<close>, \<^verbatim>\<open>lineNumber\<close> and the code unit of the
  token's end. It returns a grapheme position (\<open>Inr\<close>) or throws (\<open>Inl\<close>), and
  \<^verbatim>\<open>graphemePositionStartFrom\<close> returns or throws what it does. The token may be a snapshot token
  or a flat token, hence the record scheme.
\<close>

definition graphemePositionStartFrom ::
  "(string \<Rightarrow> nat \<Rightarrow> nat \<Rightarrow> nat \<Rightarrow> 'x + 'g) \<Rightarrow> string \<Rightarrow> LineTerminator list \<Rightarrow>
   ('k, TokenPosition, 'z) IToken_scheme \<Rightarrow> 'x + 'g"
where
  "graphemePositionStartFrom gpf txt terms flatLineToken =
     (let (s, e) = substringBoundsLoop terms
                     (TokenPosition.codeUnit (positionStart flatLineToken))
                     (TokenPosition.codeUnit (positionEnd flatLineToken))
                     (0, length txt)
      in gpf (substring txt s e)
           (lineCodeUnit (positionStart flatLineToken))
           (lineNumber (positionStart flatLineToken))
           (TokenPosition.codeUnit (positionEnd flatLineToken)))"

subsection \<open>Stitching\<close>

definition readLineComment :: "FlatLineToken \<Rightarrow> Comment" where
  "readLineComment flatToken =
     \<lparr> IToken.kind = Line, data = data flatToken,
       positionStart = positionStart flatToken, positionEnd = positionEnd flatToken,
       containsNewline = True \<rparr>"

definition readSingleLineMultilineComment :: "FlatLineToken \<Rightarrow> Comment" where
  "readSingleLineMultilineComment flatToken =
     \<lparr> IToken.kind = Multiline, data = data flatToken,
       positionStart = positionStart flatToken, positionEnd = positionEnd flatToken,
       containsNewline =
         (lineNumber (positionStart flatToken) \<noteq> lineNumber (positionEnd flatToken)) \<rparr>"

text \<open>The loop of \<^verbatim>\<open>collectWhileContent\<close>; it returns the collected tokens and the index at
  which it stopped.\<close>

function collectLoop ::
  "FlatLineToken list \<Rightarrow> LineTokenKind \<Rightarrow> nat \<Rightarrow> FlatLineToken list \<Rightarrow> FlatLineToken list \<times> nat"
where
  "collectLoop flatTokens contentKind idx collected =
     (if idx < length flatTokens
      then (if IToken.kind (flatTokens ! idx) \<noteq> contentKind
            then (collected, idx)
            else collectLoop flatTokens contentKind (idx + 1) (collected @ [flatTokens ! idx]))
      else (collected, idx))"
  by pat_completeness auto
termination
  by (relation "measure (\<lambda>(flatTokens, contentKind, idx, collected). length flatTokens - idx)")
     auto

declare collectLoop.simps [simp del]

text \<open>Reading an array past its end gives \<^verbatim>\<open>undefined\<close>, the empty \<^verbatim>\<open>Option\<close>.\<close>

definition collectWhileContent ::
  "FlatLineToken list \<Rightarrow> FlatLineToken \<Rightarrow> LineTokenKind \<Rightarrow> FlatLineCollection"
where
  "collectWhileContent flatTokens start contentKind =
     (let (collected, idx) = collectLoop flatTokens contentKind (flatIndex start + 1) []
      in \<lparr> tokenStart = start,
           collectedTokens = collected,
           maybeTokenEnd = (if idx < length flatTokens then Some (flatTokens ! idx) else None) \<rparr>)"

text \<open>
  The three functions that stitch a run of fragments. When no token follows the content
  fragments, the arguments of \<^verbatim>\<open>new UnterminatedMultilineTokenError\<close> are evaluated first: a throw
  of \<^verbatim>\<open>graphemePositionFrom\<close> leaves the function in place of the error under construction.
\<close>

definition invariantMessage :: string where
  "invariantMessage =
     ''once a multiline token starts it should either reach a paired end token, or eof''"

definition readMultilineComment ::
  "(string \<Rightarrow> nat \<Rightarrow> nat \<Rightarrow> nat \<Rightarrow> 'x + 'g) \<Rightarrow> FlattenedLines \<Rightarrow> FlatLineToken \<Rightarrow>
   ('g, 'x) Thrown + ConcatenatedCommentRead"
where
  "readMultilineComment gpf flattenedLines start =
     (case maybeTokenEnd
             (collectWhileContent (flatLineTokens flattenedLines) start MultilineCommentContent) of
        None \<Rightarrow>
          (case graphemePositionStartFrom gpf (FlattenedLines.text flattenedLines)
                  (FlattenedLines.lineTerminators flattenedLines) start of
             Inl x \<Rightarrow> Inl (HelperError x)
           | Inr graphemePosition \<Rightarrow>
               Inl (UnterminatedMultilineTokenError graphemePosition UnterminatedMultilineComment))
      | Some tokenEnd \<Rightarrow>
          if IToken.kind tokenEnd \<noteq> MultilineCommentEnd
          then Inl (InvariantError invariantMessage tokenEnd)
          else Inr \<lparr> comment =
                      \<lparr> IToken.kind = Multiline,
                        data = substring (FlattenedLines.text flattenedLines)
                                 (TokenPosition.codeUnit (positionStart start))
                                 (TokenPosition.codeUnit (positionEnd tokenEnd)),
                        positionStart = positionStart start,
                        positionEnd = positionEnd tokenEnd,
                        containsNewline =
                          (lineNumber (positionStart start) \<noteq> lineNumber (positionEnd tokenEnd)) \<rparr>,
                     ConcatenatedCommentRead.flatIndexEnd = flatIndex tokenEnd \<rparr>)"

definition readQuotedIdentifier ::
  "(string \<Rightarrow> nat \<Rightarrow> nat \<Rightarrow> nat \<Rightarrow> 'x + 'g) \<Rightarrow> FlattenedLines \<Rightarrow> FlatLineToken \<Rightarrow>
   ('g, 'x) Thrown + ConcatenatedTokenRead"
where
  "readQuotedIdentifier gpf flattenedLines start =
     (case maybeTokenEnd
             (collectWhileContent (flatLineTokens flattenedLines) start QuotedIdentifierContent) of
        None \<Rightarrow>
          (case graphemePositionStartFrom gpf (FlattenedLines.text flattenedLines)
                  (FlattenedLines.lineTerminators flattenedLines) start of
             Inl x \<Rightarrow> Inl (HelperError x)
           | Inr graphemePosition \<Rightarrow>
               Inl (UnterminatedMultilineTokenError graphemePosition UnterminatedQuotedIdentifier))
      | Some tokenEnd \<Rightarrow>
          if IToken.kind tokenEnd \<noteq> QuotedIdentifierEnd
          then Inl (InvariantError invariantMessage tokenEnd)
          else Inr \<lparr> token =
                      \<lparr> IToken.kind = SingleLine Identifier,
                        data = substring (FlattenedLines.text flattenedLines)
                                 (TokenPosition.codeUnit (positionStart start))
                                 (TokenPosition.codeUnit (positionEnd tokenEnd)),
                        positionStart = positionStart start,
                        positionEnd = positionEnd tokenEnd \<rparr>,
                     ConcatenatedTokenRead.flatIndexEnd = flatIndex tokenEnd \<rparr>)"

definition readStringLiteral ::
  "(string \<Rightarrow> nat \<Rightarrow> nat \<Rightarrow> nat \<Rightarrow> 'x + 'g) \<Rightarrow> FlattenedLines \<Rightarrow> FlatLineToken \<Rightarrow>
   ('g, 'x) Thrown + ConcatenatedTokenRead"
where
  "readStringLiteral gpf flattenedLines start =
     (case maybeTokenEnd
             (collectWhileContent (flatLineTokens flattenedLines) start StringLiteralContent) of
        None \<Rightarrow>
          (case graphemePositionStartFrom gpf (FlattenedLines.text flattenedLines)
                  (FlattenedLines.lineTerminators flattenedLines) start of
             Inl x \<Rightarrow> Inl (HelperError x)
           | Inr graphemePosition \<Rightarrow>
               Inl (UnterminatedMultilineTokenError graphemePosition UnterminatedString))
      | Some tokenEnd \<Rightarrow>
          if IToken.kind tokenEnd \<noteq> StringLiteralEnd
          then Inl (InvariantError invariantMessage tokenEnd)
          else Inr \<lparr> token =
                      \<lparr> IToken.kind = SingleLine StringLiteral,
                        data = substring (FlattenedLines.text flattenedLines)
                                 (TokenPosition.codeUnit (positionStart start))
                                 (TokenPosition.codeUnit (positionEnd tokenEnd)),
                        positionStart = positionStart start,
                        positionEnd = positionEnd tokenEnd \<rparr>,
                     ConcatenatedTokenRead.flatIndexEnd = flatIndex tokenEnd \<rparr>)"

text \<open>The token pushed by the default branch of the \<^verbatim>\<open>switch\<close> in \<^verbatim>\<open>factory\<close>: the kind is
  cast, not mapped.\<close>

definition castToken :: "FlatLineToken \<Rightarrow> Token" where
  "castToken flatToken =
     \<lparr> IToken.kind = IToken.kind flatToken, data = data flatToken,
       positionStart = positionStart flatToken, positionEnd = positionEnd flatToken \<rparr>"

text \<open>
  One pass through the body of the \<^verbatim>\<open>while\<close> loop of \<^verbatim>\<open>factory\<close>: the \<^verbatim>\<open>switch\<close> on the
  kind of the flat token at \<open>idx\<close>, followed by \<^verbatim>\<open>flatIndex += 1\<close>. It returns the thrown
  error, or the next index with the extended arrays of tokens and comments.
\<close>

definition factoryStep ::
  "(string \<Rightarrow> nat \<Rightarrow> nat \<Rightarrow> nat \<Rightarrow> 'x + 'g) \<Rightarrow> FlattenedLines \<Rightarrow> nat \<Rightarrow> Token list \<Rightarrow> Comment list \<Rightarrow>
   ('g, 'x) Thrown + nat \<times> Token list \<times> Comment list"
where
  "factoryStep gpf flattenedLines idx toks coms =
     (let flatToken = flatLineTokens flattenedLines ! idx
      in case IToken.kind flatToken of
           LineComment \<Rightarrow> Inr (idx + 1, toks, coms @ [readLineComment flatToken])
         | MultilineComment \<Rightarrow>
             Inr (idx + 1, toks, coms @ [readSingleLineMultilineComment flatToken])
         | MultilineCommentStart \<Rightarrow>
             (case readMultilineComment gpf flattenedLines flatToken of
                Inl e \<Rightarrow> Inl e
              | Inr r \<Rightarrow>
                  Inr (ConcatenatedCommentRead.flatIndexEnd r + 1, toks, coms @ [comment r]))
         | QuotedIdentifierStart \<Rightarrow>
             (case readQuotedIdentifier gpf flattenedLines flatToken of
                Inl e \<Rightarrow> Inl e
              | Inr r \<Rightarrow>
                  Inr (ConcatenatedTokenRead.flatIndexEnd r + 1, toks @ [token r], coms))
         | StringLiteralStart \<Rightarrow>
             (case readStringLiteral gpf flattenedLines flatToken of
                Inl e \<Rightarrow> Inl e
              | Inr r \<Rightarrow>
                  Inr (ConcatenatedTokenRead.flatIndexEnd r + 1, toks @ [token r], coms))
         | _ \<Rightarrow> Inr (idx + 1, toks @ [castToken flatToken], coms))"

text \<open>
  The \<^verbatim>\<open>while\<close> loop of \<^verbatim>\<open>factory\<close>. After a multiline read the loop continues behind
  \<^verbatim>\<open>tokenEnd.flatIndex\<close>, a field of the token, so the loop is not bounded by its shape:
  not returning is the value \<open>None\<close>. A thrown error ends the loop with \<open>Inl\<close>.
\<close>

partial_function (option) factoryLoop ::
  "(string \<Rightarrow> nat \<Rightarrow> nat \<Rightarrow> nat \<Rightarrow> 'x + 'g) \<Rightarrow> FlattenedLines \<Rightarrow> nat \<Rightarrow> Token list \<Rightarrow> Comment list \<Rightarrow>
   (('g, 'x) Thrown + Token list \<times> Comment list) option"
where
  "factoryLoop gpf flattenedLines idx toks coms =
     (if idx < length (flatLineTokens flattenedLines)
      then (case factoryStep gpf flattenedLines idx toks coms of
              Inl e \<Rightarrow> Some (Inl e)
            | Inr (idx', toks', coms') \<Rightarrow> factoryLoop gpf flattenedLines idx' toks' coms')
      else Some (Inr (toks, coms)))"

declare factoryLoop.simps [code]

definition factory ::
  "(string \<Rightarrow> nat \<Rightarrow> nat \<Rightarrow> nat \<Rightarrow> 'x + 'g) \<Rightarrow> State \<Rightarrow> (('g, 'x) Thrown + LexerSnapshot) option"
where
  "factory gpf state =
     (let flattenedLines = flattenLineTokens state
      in case factoryLoop gpf flattenedLines 0 [] [] of
           None \<Rightarrow> None
         | Some (Inl e) \<Rightarrow> Some (Inl e)
         | Some (Inr (toks, coms)) \<Rightarrow>
             Some (Inr \<lparr> LexerSnapshot.text = FlattenedLines.text flattenedLines,
                         tokens = toks,
                         comments = coms,
                         lineTerminators = FlattenedLines.lineTerminators flattenedLines \<rparr>))"

text \<open>\<^verbatim>\<open>LexerSnapshot.tryFrom\<close>: the \<^verbatim>\<open>try\<close> block returns \<open>Ok\<close>, the \<^verbatim>\<open>catch\<close> block wraps
  whatever was thrown and returns \<open>Err\<close>.\<close>

definition tryFrom ::
  "(string \<Rightarrow> nat \<Rightarrow> nat \<Rightarrow> nat \<Rightarrow> 'x + 'g) \<Rightarrow> State \<Rightarrow> (LexerSnapshot, ('g, 'x) TLexerError) Result option"
where
  "tryFrom gpf state =
     (case factory gpf state of
        None \<Rightarrow> None
      | Some (Inr snapshot) \<Rightarrow> Some (Ok snapshot)
      | Some (Inl e) \<Rightarrow>
          Some (Err (if isTInnerLexerError e then LexerError e else ensureCommonError e)))"

section \<open>Functions used to state and prove the properties\<close>

subsection \<open>The result of flattening, line by line\<close>

text \<open>The flat token that \<^verbatim>\<open>flattenLineTokens\<close> pushes for a line token of line \<open>lineNo\<close>,
  whose text begins at \<open>lineTextOffset\<close>, when the flat index is \<open>idx\<close>.\<close>

definition flatTokenOf :: "nat \<Rightarrow> nat \<Rightarrow> nat \<Rightarrow> LineToken \<Rightarrow> FlatLineToken" where
  "flatTokenOf lineTextOffset lineNo idx lineToken =
     \<lparr> IToken.kind = IToken.kind lineToken,
       data = data lineToken,
       positionStart =
         \<lparr> TokenPosition.codeUnit = lineTextOffset + positionStart lineToken,
           lineCodeUnit = positionStart lineToken,
           lineNumber = lineNo \<rparr>,
       positionEnd =
         \<lparr> TokenPosition.codeUnit = lineTextOffset + positionEnd lineToken,
           lineCodeUnit = positionEnd lineToken,
           lineNumber = lineNo \<rparr>,
       flatIndex = idx \<rparr>"

definition lineLength :: "TLine \<Rightarrow> nat" where
  "lineLength line = length (TLine.text line) + length (lineTerminator line)"

text \<open>The flat tokens, the line terminators and the text that the loop over the lines adds
  to its three accumulators; \<open>flattenLinesLoop_eq\<close> below shows that it does.\<close>

fun flatFrom :: "TLine list \<Rightarrow> nat \<Rightarrow> nat \<Rightarrow> nat \<Rightarrow> FlatLineToken list" where
  "flatFrom [] lineNo off idx = []"
| "flatFrom (line # rest) lineNo off idx =
     map (\<lambda>(i, t). flatTokenOf off lineNo i t) (enumerate idx (TLine.tokens line)) @
     flatFrom rest (lineNo + 1) (off + lineLength line) (idx + length (TLine.tokens line))"

fun termsFrom :: "TLine list \<Rightarrow> nat \<Rightarrow> LineTerminator list" where
  "termsFrom [] off = []"
| "termsFrom (line # rest) off =
     \<lparr> LineTerminator.codeUnit = off + length (TLine.text line),
       LineTerminator.text = lineTerminator line \<rparr> #
     termsFrom rest (off + lineLength line)"

fun textFrom :: "TLine list \<Rightarrow> string" where
  "textFrom [] = []"
| "textFrom [line] = TLine.text line"
| "textFrom (line # rest) = TLine.text line @ lineTerminator line @ textFrom rest"

text \<open>The offset accumulated over the lines before line \<open>n\<close>, and the number of tokens
  on those lines.\<close>

definition lineOffset :: "TLine list \<Rightarrow> nat \<Rightarrow> nat" where
  "lineOffset ls n = sum_list (map lineLength (take n ls))"

definition tokensBefore :: "TLine list \<Rightarrow> nat \<Rightarrow> nat" where
  "tokensBefore ls n = sum_list (map (\<lambda>l. length (TLine.tokens l)) (take n ls))"

text \<open>An array of flat tokens in which every \<^verbatim>\<open>flatIndex\<close> is the position of its token.\<close>

definition indexed :: "FlatLineToken list \<Rightarrow> bool" where
  "indexed flat = (map flatIndex flat = [0 ..< length flat])"

subsection \<open>The walk over the flat tokens, as a function of the tokens still to be read\<close>

text \<open>
  The loop of \<^verbatim>\<open>factory\<close> moves an index over the array of flat tokens. The functions of this
  subsection describe the same walk on the list of the tokens from the index on: what is
  emitted is a token or a comment, in the order of emission. \<open>factoryLoop_walk\<close> below shows
  that the loop computes \<open>stitchWalk\<close>.
\<close>

datatype Emitted = EmittedToken Token | EmittedComment Comment

text \<open>The tokens and the comments among what was emitted, each in the order of emission.\<close>

fun tokensOf :: "Emitted list \<Rightarrow> Token list" where
  "tokensOf [] = []"
| "tokensOf (EmittedToken t # rest) = t # tokensOf rest"
| "tokensOf (EmittedComment c # rest) = tokensOf rest"

fun commentsOf :: "Emitted list \<Rightarrow> Comment list" where
  "commentsOf [] = []"
| "commentsOf (EmittedToken t # rest) = commentsOf rest"
| "commentsOf (EmittedComment c # rest) = c # commentsOf rest"

text \<open>
  The three families of fragments, as \<^verbatim>\<open>readMultilineComment\<close>, \<^verbatim>\<open>readQuotedIdentifier\<close> and
  \<^verbatim>\<open>readStringLiteral\<close> pair them: the content kind that a start kind collects (\<open>None\<close> for
  a kind that is not a start), the end kind it requires and the kind of the error it throws
  when nothing follows. The last two are read for start kinds only.
\<close>

fun contentKindOf :: "LineTokenKind \<Rightarrow> LineTokenKind option" where
  "contentKindOf MultilineCommentStart = Some MultilineCommentContent"
| "contentKindOf QuotedIdentifierStart = Some QuotedIdentifierContent"
| "contentKindOf StringLiteralStart = Some StringLiteralContent"
| "contentKindOf _ = None"

fun endKindOf :: "LineTokenKind \<Rightarrow> LineTokenKind" where
  "endKindOf MultilineCommentStart = MultilineCommentEnd"
| "endKindOf QuotedIdentifierStart = QuotedIdentifierEnd"
| "endKindOf StringLiteralStart = StringLiteralEnd"
| "endKindOf k = k"

fun unterminatedKindOf :: "LineTokenKind \<Rightarrow> UnterminatedMultilineTokenKind" where
  "unterminatedKindOf QuotedIdentifierStart = UnterminatedQuotedIdentifier"
| "unterminatedKindOf StringLiteralStart = UnterminatedString"
| "unterminatedKindOf _ = UnterminatedMultilineComment"

text \<open>What the \<^verbatim>\<open>switch\<close> pushes for a flat token that is not a start fragment, and what it
  pushes for a start fragment \<open>s\<close> closed by the end fragment \<open>e\<close>.\<close>

definition emitSingle :: "FlatLineToken \<Rightarrow> Emitted" where
  "emitSingle t =
     (case IToken.kind t of
        LineComment \<Rightarrow> EmittedComment (readLineComment t)
      | MultilineComment \<Rightarrow> EmittedComment (readSingleLineMultilineComment t)
      | _ \<Rightarrow> EmittedToken (castToken t))"

definition emitStitched :: "string \<Rightarrow> FlatLineToken \<Rightarrow> FlatLineToken \<Rightarrow> Emitted" where
  "emitStitched tx s e =
     (let d = substring tx (TokenPosition.codeUnit (positionStart s))
                (TokenPosition.codeUnit (positionEnd e))
      in case IToken.kind s of
           MultilineCommentStart \<Rightarrow>
             EmittedComment
               \<lparr> IToken.kind = Multiline, data = d,
                 positionStart = positionStart s, positionEnd = positionEnd e,
                 containsNewline =
                   (lineNumber (positionStart s) \<noteq> lineNumber (positionEnd e)) \<rparr>
         | QuotedIdentifierStart \<Rightarrow>
             EmittedToken
               \<lparr> IToken.kind = SingleLine Identifier, data = d,
                 positionStart = positionStart s, positionEnd = positionEnd e \<rparr>
         | _ \<Rightarrow>
             EmittedToken
               \<lparr> IToken.kind = SingleLine StringLiteral, data = d,
                 positionStart = positionStart s, positionEnd = positionEnd e \<rparr>)"

text \<open>What is thrown for a start fragment \<open>s\<close> whose run reaches the end of the tokens: the
  error of an unterminated multiline token at the grapheme position of \<open>s\<close>, or what
  \<^verbatim>\<open>graphemePositionFrom\<close> threw when asked for that position.\<close>

definition unterminatedThrow ::
  "(string \<Rightarrow> nat \<Rightarrow> nat \<Rightarrow> nat \<Rightarrow> 'x + 'g) \<Rightarrow> string \<Rightarrow> LineTerminator list \<Rightarrow>
   FlatLineToken \<Rightarrow> ('g, 'x) Thrown"
where
  "unterminatedThrow gpf tx lts s =
     (case graphemePositionStartFrom gpf tx lts s of
        Inl x \<Rightarrow> HelperError x
      | Inr graphemePosition \<Rightarrow>
          UnterminatedMultilineTokenError graphemePosition (unterminatedKindOf (IToken.kind s)))"

text \<open>An emitted item put in front of the result of the rest of the walk; a thrown error
  stays the result.\<close>

fun consEmitted :: "Emitted \<Rightarrow> 'e + Emitted list \<Rightarrow> 'e + Emitted list" where
  "consEmitted x (Inl e) = Inl e"
| "consEmitted x (Inr xs) = Inr (x # xs)"

text \<open>
  The walk. Its fourth argument is the start fragment of the run that is being collected, if
  any; its fifth the flat tokens still to be read. Outside a run a start fragment opens one
  and any other token is emitted by itself. Inside a run matching content is skipped, the
  matching end closes the run and emits the stitched item, any other token is an invariant
  error, and at the end of the tokens \<open>unterminatedThrow\<close> is thrown.
\<close>

fun stitchWalk ::
  "(string \<Rightarrow> nat \<Rightarrow> nat \<Rightarrow> nat \<Rightarrow> 'x + 'g) \<Rightarrow> string \<Rightarrow> LineTerminator list \<Rightarrow>
   FlatLineToken option \<Rightarrow> FlatLineToken list \<Rightarrow> ('g, 'x) Thrown + Emitted list"
where
  "stitchWalk gpf tx lts None [] = Inr []"
| "stitchWalk gpf tx lts (Some s) [] = Inl (unterminatedThrow gpf tx lts s)"
| "stitchWalk gpf tx lts None (t # rest) =
     (case contentKindOf (IToken.kind t) of
        None \<Rightarrow> consEmitted (emitSingle t) (stitchWalk gpf tx lts None rest)
      | Some c \<Rightarrow> stitchWalk gpf tx lts (Some t) rest)"
| "stitchWalk gpf tx lts (Some s) (t # rest) =
     (if Some (IToken.kind t) = contentKindOf (IToken.kind s)
      then stitchWalk gpf tx lts (Some s) rest
      else if IToken.kind t \<noteq> endKindOf (IToken.kind s)
      then Inl (InvariantError invariantMessage t)
      else consEmitted (emitStitched tx s t) (stitchWalk gpf tx lts None rest))"

text \<open>The arrays of the loop after the emitted items were pushed.\<close>

definition withEmitted ::
  "Token list \<Rightarrow> Comment list \<Rightarrow> 'e + Emitted list \<Rightarrow> 'e + Token list \<times> Comment list"
where
  "withEmitted toks coms r =
     (case r of Inl e \<Rightarrow> Inl e
      | Inr items \<Rightarrow> Inr (toks @ tokensOf items, coms @ commentsOf items))"

subsection \<open>Conditions on the kinds of the flat tokens\<close>

text \<open>
  Fragment pairing: every start fragment of the list is followed by matching content
  fragments and then by its matching end. The first argument is the start kind of the run that
  is open where the list begins (\<open>None\<close> outside a run). Content and end fragments outside a
  run are not excluded.
\<close>

fun closedFrom :: "LineTokenKind option \<Rightarrow> LineTokenKind list \<Rightarrow> bool" where
  "closedFrom None [] = True"
| "closedFrom (Some s) [] = False"
| "closedFrom None (k # ks) =
     (case contentKindOf k of None \<Rightarrow> closedFrom None ks | Some c \<Rightarrow> closedFrom (Some k) ks)"
| "closedFrom (Some s) (k # ks) =
     (if Some k = contentKindOf s then closedFrom (Some s) ks
      else k = endKindOf s \<and> closedFrom None ks)"

text \<open>
  No content or end fragment outside a run: outside a run the list has no content and no end
  fragment; a run ends with the matching end, or with the list, or with a token of another
  kind, where the walk stops and nothing after it is read.
\<close>

fun isFragmentTail :: "LineTokenKind \<Rightarrow> bool" where
  "isFragmentTail MultilineCommentContent = True"
| "isFragmentTail MultilineCommentEnd = True"
| "isFragmentTail StringLiteralContent = True"
| "isFragmentTail StringLiteralEnd = True"
| "isFragmentTail QuotedIdentifierContent = True"
| "isFragmentTail QuotedIdentifierEnd = True"
| "isFragmentTail _ = False"

fun enclosedFrom :: "LineTokenKind option \<Rightarrow> LineTokenKind list \<Rightarrow> bool" where
  "enclosedFrom opn [] = True"
| "enclosedFrom None (k # ks) =
     (case contentKindOf k of
        None \<Rightarrow> \<not> isFragmentTail k \<and> enclosedFrom None ks
      | Some c \<Rightarrow> enclosedFrom (Some k) ks)"
| "enclosedFrom (Some s) (k # ks) =
     (if Some k = contentKindOf s then enclosedFrom (Some s) ks
      else if k = endKindOf s then enclosedFrom None ks
      else True)"

text \<open>
  The kinds for which the \<^verbatim>\<open>switch\<close> of \<^verbatim>\<open>factory\<close> takes its default branch, and the indices
  that the loop of \<^verbatim>\<open>factory\<close> reaches: it starts at 0 and goes from an index inside the array
  to the index that one pass through its body returns.
\<close>

fun defaultBranch :: "LineTokenKind \<Rightarrow> bool" where
  "defaultBranch LineComment = False"
| "defaultBranch MultilineComment = False"
| "defaultBranch MultilineCommentStart = False"
| "defaultBranch QuotedIdentifierStart = False"
| "defaultBranch StringLiteralStart = False"
| "defaultBranch _ = True"

inductive loopReaches ::
  "(string \<Rightarrow> nat \<Rightarrow> nat \<Rightarrow> nat \<Rightarrow> 'x + 'g) \<Rightarrow> FlattenedLines \<Rightarrow> nat \<Rightarrow> bool"
  for gpf :: "string \<Rightarrow> nat \<Rightarrow> nat \<Rightarrow> nat \<Rightarrow> 'x + 'g" and flattenedLines :: FlattenedLines
where
  loopStart: "loopReaches gpf flattenedLines 0"
| loopNext:
    "loopReaches gpf flattenedLines idx \<Longrightarrow>
     idx < length (flatLineTokens flattenedLines) \<Longrightarrow>
     factoryStep gpf flattenedLines idx toks coms = Inr (idx', toks', coms') \<Longrightarrow>
     loopReaches gpf flattenedLines idx'"

subsection \<open>The result of tryFrom from the result of the walk\<close>

fun appendEmitted :: "Emitted list \<Rightarrow> 'e + Emitted list \<Rightarrow> 'e + Emitted list" where
  "appendEmitted xs (Inl e) = Inl e"
| "appendEmitted xs (Inr ys) = Inr (xs @ ys)"

definition resultOf ::
  "string \<Rightarrow> LineTerminator list \<Rightarrow> ('g, 'x) Thrown + Emitted list \<Rightarrow> (LexerSnapshot, ('g, 'x) TLexerError) Result"
where
  "resultOf tx lts r =
     (case r of
        Inl e \<Rightarrow> Err (if isTInnerLexerError e then LexerError e else ensureCommonError e)
      | Inr items \<Rightarrow>
          Ok \<lparr> LexerSnapshot.text = tx, tokens = tokensOf items, comments = commentsOf items,
               lineTerminators = lts \<rparr>)"

subsection \<open>Spans and their order\<close>

text \<open>
  The span of a token or comment is the pair of the code units of its start and its end.
  A span is before another when it starts earlier and ends no later than the other starts.
  \<open>mergeByStart\<close> merges two lists of spans by the code unit of the start.
\<close>

definition spanOf :: "('k, TokenPosition, 'z) IToken_scheme \<Rightarrow> nat \<times> nat" where
  "spanOf t = (TokenPosition.codeUnit (positionStart t), TokenPosition.codeUnit (positionEnd t))"

definition before :: "nat \<times> nat \<Rightarrow> nat \<times> nat \<Rightarrow> bool" where
  "before a b = (fst a < fst b \<and> snd a \<le> fst b)"

fun mergeByStart :: "(nat \<times> nat) list \<Rightarrow> (nat \<times> nat) list \<Rightarrow> (nat \<times> nat) list" where
  "mergeByStart [] ys = ys"
| "mergeByStart xs [] = xs"
| "mergeByStart (x # xs) (y # ys) =
     (if fst x \<le> fst y then x # mergeByStart xs (y # ys) else y # mergeByStart (x # xs) ys)"

text \<open>
  The conditions on the tokens of a line: each token ends no later than the next one starts;
  a token is not empty and ends inside the text of its line.
\<close>

fun adjacentOrdered :: "LineToken list \<Rightarrow> bool" where
  "adjacentOrdered [] = True"
| "adjacentOrdered [t] = True"
| "adjacentOrdered (a # b # rest) = (positionEnd a \<le> positionStart b \<and> adjacentOrdered (b # rest))"

definition tokenInLine :: "TLine \<Rightarrow> LineToken \<Rightarrow> bool" where
  "tokenInLine line t =
     (positionStart t < positionEnd t \<and> positionEnd t \<le> length (TLine.text line))"

definition lineInvariant :: "TLine \<Rightarrow> bool" where
  "lineInvariant line =
     (adjacentOrdered (TLine.tokens line) \<and> list_all (tokenInLine line) (TLine.tokens line))"

text \<open>Used in the proofs: the span of an emitted item, spans that are not empty and start at
  \<open>lo\<close> or later, and the tokens of the walk together with the start of the open run.\<close>

fun spanOfEmitted :: "Emitted \<Rightarrow> nat \<times> nat" where
  "spanOfEmitted (EmittedToken t) = spanOf t"
| "spanOfEmitted (EmittedComment c) = spanOf c"

definition spansFrom :: "nat \<Rightarrow> (nat \<times> nat) list \<Rightarrow> bool" where
  "spansFrom lo spans = list_all (\<lambda>p. lo \<le> fst p \<and> fst p < snd p) spans"

definition openTokens :: "FlatLineToken option \<Rightarrow> FlatLineToken list \<Rightarrow> FlatLineToken list" where
  "openTokens opn ts = (case opn of None \<Rightarrow> ts | Some s \<Rightarrow> s # ts)"

section \<open>Example states\<close>

text \<open>Two stand-ins for \<^verbatim>\<open>graphemePositionFrom\<close>: one returns the arguments it is called with,
  so that an example shows which substring and offsets reach it; the other throws them.\<close>

type_synonym gpfArguments = "string \<times> nat \<times> nat \<times> nat"

definition gpfArgs :: "string \<Rightarrow> nat \<Rightarrow> nat \<Rightarrow> nat \<Rightarrow> gpfArguments + gpfArguments" where
  "gpfArgs s lineUnit lineNo endUnit = Inr (s, lineUnit, lineNo, endUnit)"

definition gpfThrows :: "string \<Rightarrow> nat \<Rightarrow> nat \<Rightarrow> nat \<Rightarrow> gpfArguments + gpfArguments" where
  "gpfThrows s lineUnit lineNo endUnit = Inl (s, lineUnit, lineNo, endUnit)"

text \<open>The state of the three lines \<^verbatim>\<open>abc /*X\<close>, \<^verbatim>\<open>X\<close>, \<^verbatim>\<open>X*/\<close>, the first two ended by a
  line feed.\<close>

definition exampleCommentState :: State where
  "exampleCommentState =
     \<lparr> lines =
         [\<lparr> TLine.kind = Touched, TLine.text = ''abc /*X'', lineTerminator = [CHR 10],
            TLine.tokens =
              [\<lparr> IToken.kind = SingleLine Identifier, data = ''abc'',
                 positionStart = 0, positionEnd = 3 \<rparr>,
               \<lparr> IToken.kind = MultilineCommentStart, data = ''/*X'',
                 positionStart = 4, positionEnd = 7 \<rparr>],
            modeStart = Default, modeEnd = CommentMode \<rparr>,
          \<lparr> TLine.kind = Touched, TLine.text = ''X'', lineTerminator = [CHR 10],
            TLine.tokens =
              [\<lparr> IToken.kind = MultilineCommentContent, data = ''X'',
                 positionStart = 0, positionEnd = 1 \<rparr>],
            modeStart = CommentMode, modeEnd = CommentMode \<rparr>,
          \<lparr> TLine.kind = Touched, TLine.text = ''X*/'', lineTerminator = [],
            TLine.tokens =
              [\<lparr> IToken.kind = MultilineCommentEnd, data = ''X*/'',
                 positionStart = 0, positionEnd = 3 \<rparr>],
            modeStart = CommentMode, modeEnd = Default \<rparr>] \<rparr>"

definition exampleCommentSnapshot :: LexerSnapshot where
  "exampleCommentSnapshot =
     \<lparr> LexerSnapshot.text = ''abc /*X'' @ [CHR 10] @ ''X'' @ [CHR 10] @ ''X*/'',
       tokens =
         [\<lparr> IToken.kind = SingleLine Identifier, data = ''abc'',
            positionStart = \<lparr> TokenPosition.codeUnit = 0, lineCodeUnit = 0, lineNumber = 0 \<rparr>,
            positionEnd = \<lparr> TokenPosition.codeUnit = 3, lineCodeUnit = 3, lineNumber = 0 \<rparr> \<rparr>],
       comments =
         [\<lparr> IToken.kind = Multiline, data = ''/*X'' @ [CHR 10] @ ''X'' @ [CHR 10] @ ''X*/'',
            positionStart = \<lparr> TokenPosition.codeUnit = 4, lineCodeUnit = 4, lineNumber = 0 \<rparr>,
            positionEnd = \<lparr> TokenPosition.codeUnit = 13, lineCodeUnit = 3, lineNumber = 2 \<rparr>,
            containsNewline = True \<rparr>],
       lineTerminators =
         [\<lparr> LineTerminator.codeUnit = 7, LineTerminator.text = [CHR 10] \<rparr>,
          \<lparr> LineTerminator.codeUnit = 9, LineTerminator.text = [CHR 10] \<rparr>,
          \<lparr> LineTerminator.codeUnit = 13, LineTerminator.text = [] \<rparr>] \<rparr>"

text \<open>One line, \<^verbatim>\<open>a 0x\<close>, with the status of a line on which lexing failed and the token read
  before the failure.\<close>

definition exampleErrorLineState :: State where
  "exampleErrorLineState =
     \<lparr> lines =
         [\<lparr> TLine.kind = TouchedWithError, TLine.text = ''a 0x'', lineTerminator = [],
            TLine.tokens =
              [\<lparr> IToken.kind = SingleLine Identifier, data = ''a'',
                 positionStart = 0, positionEnd = 1 \<rparr>],
            modeStart = Default, modeEnd = Default \<rparr>] \<rparr>"

definition exampleErrorLineSnapshot :: LexerSnapshot where
  "exampleErrorLineSnapshot =
     \<lparr> LexerSnapshot.text = ''a 0x'',
       tokens =
         [\<lparr> IToken.kind = SingleLine Identifier, data = ''a'',
            positionStart = \<lparr> TokenPosition.codeUnit = 0, lineCodeUnit = 0, lineNumber = 0 \<rparr>,
            positionEnd = \<lparr> TokenPosition.codeUnit = 1, lineCodeUnit = 1, lineNumber = 0 \<rparr> \<rparr>],
       comments = [],
       lineTerminators = [\<lparr> LineTerminator.codeUnit = 4, LineTerminator.text = [] \<rparr>] \<rparr>"

text \<open>Three lines, \<^verbatim>\<open>a /*\<close>, \<^verbatim>\<open>x\<close> and \<^verbatim>\<open>b\<close>, whose tokens are an identifier, a comment
  start, a comment content and an identifier: the comment is never closed and the walk finds
  an identifier in place of the end.\<close>

definition exampleBrokenRunState :: State where
  "exampleBrokenRunState =
     \<lparr> lines =
         [\<lparr> TLine.kind = Touched, TLine.text = ''a /*'', lineTerminator = [CHR 10],
            TLine.tokens =
              [\<lparr> IToken.kind = SingleLine Identifier, data = ''a'',
                 positionStart = 0, positionEnd = 1 \<rparr>,
               \<lparr> IToken.kind = MultilineCommentStart, data = ''/*'',
                 positionStart = 2, positionEnd = 4 \<rparr>],
            modeStart = Default, modeEnd = CommentMode \<rparr>,
          \<lparr> TLine.kind = Touched, TLine.text = ''x'', lineTerminator = [CHR 10],
            TLine.tokens =
              [\<lparr> IToken.kind = MultilineCommentContent, data = ''x'',
                 positionStart = 0, positionEnd = 1 \<rparr>],
            modeStart = CommentMode, modeEnd = CommentMode \<rparr>,
          \<lparr> TLine.kind = Touched, TLine.text = ''b'', lineTerminator = [],
            TLine.tokens =
              [\<lparr> IToken.kind = SingleLine Identifier, data = ''b'',
                 positionStart = 0, positionEnd = 1 \<rparr>],
            modeStart = Default, modeEnd = Default \<rparr>] \<rparr>"

definition exampleFoundToken :: FlatLineToken where
  "exampleFoundToken =
     \<lparr> IToken.kind = SingleLine Identifier, data = ''b'',
       positionStart = \<lparr> TokenPosition.codeUnit = 7, lineCodeUnit = 0, lineNumber = 2 \<rparr>,
       positionEnd = \<lparr> TokenPosition.codeUnit = 8, lineCodeUnit = 1, lineNumber = 2 \<rparr>,
       flatIndex = 3 \<rparr>"

text \<open>Two lines, a double quote and \<^verbatim>\<open>/*\<close>: a text literal start followed by a comment
  start, which nothing follows.\<close>

definition exampleTwoStartsState :: State where
  "exampleTwoStartsState =
     \<lparr> lines =
         [\<lparr> TLine.kind = Touched, TLine.text = [CHR 0x22], lineTerminator = [CHR 10],
            TLine.tokens =
              [\<lparr> IToken.kind = StringLiteralStart, data = [CHR 0x22],
                 positionStart = 0, positionEnd = 1 \<rparr>],
            modeStart = Default, modeEnd = TextMode \<rparr>,
          \<lparr> TLine.kind = Touched, TLine.text = ''/*'', lineTerminator = [],
            TLine.tokens =
              [\<lparr> IToken.kind = MultilineCommentStart, data = ''/*'',
                 positionStart = 0, positionEnd = 2 \<rparr>],
            modeStart = Default, modeEnd = CommentMode \<rparr>] \<rparr>"

definition exampleSecondStart :: FlatLineToken where
  "exampleSecondStart =
     \<lparr> IToken.kind = MultilineCommentStart, data = ''/*'',
       positionStart = \<lparr> TokenPosition.codeUnit = 2, lineCodeUnit = 0, lineNumber = 1 \<rparr>,
       positionEnd = \<lparr> TokenPosition.codeUnit = 4, lineCodeUnit = 2, lineNumber = 1 \<rparr>,
       flatIndex = 1 \<rparr>"

text \<open>Three lines, \<^verbatim>\<open>a /*\<close>, \<^verbatim>\<open>foobar\<close> and an empty one: a comment that is never closed,
  and its flat tokens.\<close>

definition exampleUnterminatedState :: State where
  "exampleUnterminatedState =
     \<lparr> lines =
         [\<lparr> TLine.kind = Touched, TLine.text = ''a /*'', lineTerminator = [CHR 10],
            TLine.tokens =
              [\<lparr> IToken.kind = SingleLine Identifier, data = ''a'',
                 positionStart = 0, positionEnd = 1 \<rparr>,
               \<lparr> IToken.kind = MultilineCommentStart, data = ''/*'',
                 positionStart = 2, positionEnd = 4 \<rparr>],
            modeStart = Default, modeEnd = CommentMode \<rparr>,
          \<lparr> TLine.kind = Touched, TLine.text = ''foobar'', lineTerminator = [CHR 10],
            TLine.tokens =
              [\<lparr> IToken.kind = MultilineCommentContent, data = ''foobar'',
                 positionStart = 0, positionEnd = 6 \<rparr>],
            modeStart = CommentMode, modeEnd = CommentMode \<rparr>,
          \<lparr> TLine.kind = Touched, TLine.text = [], lineTerminator = [],
            TLine.tokens = [],
            modeStart = CommentMode, modeEnd = CommentMode \<rparr>] \<rparr>"

definition exampleUnterminatedFlat :: "FlatLineToken list" where
  "exampleUnterminatedFlat =
     [\<lparr> IToken.kind = SingleLine Identifier, data = ''a'',
        positionStart = \<lparr> TokenPosition.codeUnit = 0, lineCodeUnit = 0, lineNumber = 0 \<rparr>,
        positionEnd = \<lparr> TokenPosition.codeUnit = 1, lineCodeUnit = 1, lineNumber = 0 \<rparr>,
        flatIndex = 0 \<rparr>,
      \<lparr> IToken.kind = MultilineCommentStart, data = ''/*'',
        positionStart = \<lparr> TokenPosition.codeUnit = 2, lineCodeUnit = 2, lineNumber = 0 \<rparr>,
        positionEnd = \<lparr> TokenPosition.codeUnit = 4, lineCodeUnit = 4, lineNumber = 0 \<rparr>,
        flatIndex = 1 \<rparr>,
      \<lparr> IToken.kind = MultilineCommentContent, data = ''foobar'',
        positionStart = \<lparr> TokenPosition.codeUnit = 5, lineCodeUnit = 0, lineNumber = 1 \<rparr>,
        positionEnd = \<lparr> TokenPosition.codeUnit = 11, lineCodeUnit = 6, lineNumber = 1 \<rparr>,
        flatIndex = 2 \<rparr>]"

text \<open>The flat tokens of \<open>exampleBrokenRunState\<close>.\<close>

definition exampleBrokenRunFlat :: "FlatLineToken list" where
  "exampleBrokenRunFlat =
     [\<lparr> IToken.kind = SingleLine Identifier, data = ''a'',
        positionStart = \<lparr> TokenPosition.codeUnit = 0, lineCodeUnit = 0, lineNumber = 0 \<rparr>,
        positionEnd = \<lparr> TokenPosition.codeUnit = 1, lineCodeUnit = 1, lineNumber = 0 \<rparr>,
        flatIndex = 0 \<rparr>,
      \<lparr> IToken.kind = MultilineCommentStart, data = ''/*'',
        positionStart = \<lparr> TokenPosition.codeUnit = 2, lineCodeUnit = 2, lineNumber = 0 \<rparr>,
        positionEnd = \<lparr> TokenPosition.codeUnit = 4, lineCodeUnit = 4, lineNumber = 0 \<rparr>,
        flatIndex = 1 \<rparr>,
      \<lparr> IToken.kind = MultilineCommentContent, data = ''x'',
        positionStart = \<lparr> TokenPosition.codeUnit = 5, lineCodeUnit = 0, lineNumber = 1 \<rparr>,
        positionEnd = \<lparr> TokenPosition.codeUnit = 6, lineCodeUnit = 1, lineNumber = 1 \<rparr>,
        flatIndex = 2 \<rparr>,
      exampleFoundToken]"

text \<open>Two lines, a double quote followed by \<^verbatim>\<open>X\<close> and \<^verbatim>\<open>X\<close> followed by a double quote: a
  text literal over two lines, the token stitched from it and the snapshot.\<close>

definition exampleTextState :: State where
  "exampleTextState =
     \<lparr> lines =
         [\<lparr> TLine.kind = Touched, TLine.text = [CHR 0x22, CHR ''X''], lineTerminator = [CHR 10],
            TLine.tokens =
              [\<lparr> IToken.kind = StringLiteralStart, data = [CHR 0x22, CHR ''X''],
                 positionStart = 0, positionEnd = 2 \<rparr>],
            modeStart = Default, modeEnd = TextMode \<rparr>,
          \<lparr> TLine.kind = Touched, TLine.text = [CHR ''X'', CHR 0x22], lineTerminator = [],
            TLine.tokens =
              [\<lparr> IToken.kind = StringLiteralEnd, data = [CHR ''X'', CHR 0x22],
                 positionStart = 0, positionEnd = 2 \<rparr>],
            modeStart = TextMode, modeEnd = Default \<rparr>] \<rparr>"

definition exampleTextToken :: Token where
  "exampleTextToken =
     \<lparr> IToken.kind = SingleLine StringLiteral,
       data = [CHR 0x22, CHR ''X'', CHR 10, CHR ''X'', CHR 0x22],
       positionStart = \<lparr> TokenPosition.codeUnit = 0, lineCodeUnit = 0, lineNumber = 0 \<rparr>,
       positionEnd = \<lparr> TokenPosition.codeUnit = 5, lineCodeUnit = 2, lineNumber = 1 \<rparr> \<rparr>"

definition exampleTextSnapshot :: LexerSnapshot where
  "exampleTextSnapshot =
     \<lparr> LexerSnapshot.text = [CHR 0x22, CHR ''X'', CHR 10, CHR ''X'', CHR 0x22],
       tokens = [exampleTextToken],
       comments = [],
       lineTerminators =
         [\<lparr> LineTerminator.codeUnit = 2, LineTerminator.text = [CHR 10] \<rparr>,
          \<lparr> LineTerminator.codeUnit = 5, LineTerminator.text = [] \<rparr>] \<rparr>"

text \<open>One line, \<^verbatim>\<open>a\<close>, with an empty token in front of the identifier.\<close>

definition exampleEmptyTokenState :: State where
  "exampleEmptyTokenState =
     \<lparr> lines =
         [\<lparr> TLine.kind = Touched, TLine.text = ''a'', lineTerminator = [],
            TLine.tokens =
              [\<lparr> IToken.kind = SingleLine Identifier, data = [],
                 positionStart = 0, positionEnd = 0 \<rparr>,
               \<lparr> IToken.kind = SingleLine Identifier, data = ''a'',
                 positionStart = 0, positionEnd = 1 \<rparr>],
            modeStart = Default, modeEnd = Default \<rparr>] \<rparr>"

definition exampleEmptyTokenSnapshot :: LexerSnapshot where
  "exampleEmptyTokenSnapshot =
     \<lparr> LexerSnapshot.text = ''a'',
       tokens =
         [\<lparr> IToken.kind = SingleLine Identifier, data = [],
            positionStart = \<lparr> TokenPosition.codeUnit = 0, lineCodeUnit = 0, lineNumber = 0 \<rparr>,
            positionEnd = \<lparr> TokenPosition.codeUnit = 0, lineCodeUnit = 0, lineNumber = 0 \<rparr> \<rparr>,
          \<lparr> IToken.kind = SingleLine Identifier, data = ''a'',
            positionStart = \<lparr> TokenPosition.codeUnit = 0, lineCodeUnit = 0, lineNumber = 0 \<rparr>,
            positionEnd = \<lparr> TokenPosition.codeUnit = 1, lineCodeUnit = 1, lineNumber = 0 \<rparr> \<rparr>],
       comments = [],
       lineTerminators = [\<lparr> LineTerminator.codeUnit = 1, LineTerminator.text = [] \<rparr>] \<rparr>"

text \<open>Two lines, \<^verbatim>\<open>ab\<close> and \<^verbatim>\<open>cd\<close>; the token of the first line ends behind the text of
  its line.\<close>

definition exampleOverrunState :: State where
  "exampleOverrunState =
     \<lparr> lines =
         [\<lparr> TLine.kind = Touched, TLine.text = ''ab'', lineTerminator = [CHR 10],
            TLine.tokens =
              [\<lparr> IToken.kind = SingleLine Identifier, data = ''ab'',
                 positionStart = 0, positionEnd = 5 \<rparr>],
            modeStart = Default, modeEnd = Default \<rparr>,
          \<lparr> TLine.kind = Touched, TLine.text = ''cd'', lineTerminator = [],
            TLine.tokens =
              [\<lparr> IToken.kind = SingleLine Identifier, data = ''cd'',
                 positionStart = 0, positionEnd = 2 \<rparr>],
            modeStart = Default, modeEnd = Default \<rparr>] \<rparr>"

definition exampleOverrunSnapshot :: LexerSnapshot where
  "exampleOverrunSnapshot =
     \<lparr> LexerSnapshot.text = ''ab'' @ [CHR 10] @ ''cd'',
       tokens =
         [\<lparr> IToken.kind = SingleLine Identifier, data = ''ab'',
            positionStart = \<lparr> TokenPosition.codeUnit = 0, lineCodeUnit = 0, lineNumber = 0 \<rparr>,
            positionEnd = \<lparr> TokenPosition.codeUnit = 5, lineCodeUnit = 5, lineNumber = 0 \<rparr> \<rparr>,
          \<lparr> IToken.kind = SingleLine Identifier, data = ''cd'',
            positionStart = \<lparr> TokenPosition.codeUnit = 3, lineCodeUnit = 0, lineNumber = 1 \<rparr>,
            positionEnd = \<lparr> TokenPosition.codeUnit = 5, lineCodeUnit = 2, lineNumber = 1 \<rparr> \<rparr>],
       comments = [],
       lineTerminators =
         [\<lparr> LineTerminator.codeUnit = 2, LineTerminator.text = [CHR 10] \<rparr>,
          \<lparr> LineTerminator.codeUnit = 5, LineTerminator.text = [] \<rparr>] \<rparr>"

text \<open>Three lines, \<^verbatim>\<open>a\<close>, an empty one and \<^verbatim>\<open>b\<close>, the first two ended by a line feed: the
  second line has no token.\<close>

definition exampleBlankLineState :: State where
  "exampleBlankLineState =
     \<lparr> lines =
         [\<lparr> TLine.kind = Touched, TLine.text = ''a'', lineTerminator = [CHR 10],
            TLine.tokens =
              [\<lparr> IToken.kind = SingleLine Identifier, data = ''a'',
                 positionStart = 0, positionEnd = 1 \<rparr>],
            modeStart = Default, modeEnd = Default \<rparr>,
          \<lparr> TLine.kind = Touched, TLine.text = [], lineTerminator = [CHR 10],
            TLine.tokens = [],
            modeStart = Default, modeEnd = Default \<rparr>,
          \<lparr> TLine.kind = Touched, TLine.text = ''b'', lineTerminator = [],
            TLine.tokens =
              [\<lparr> IToken.kind = SingleLine Identifier, data = ''b'',
                 positionStart = 0, positionEnd = 1 \<rparr>],
            modeStart = Default, modeEnd = Default \<rparr>] \<rparr>"

section \<open>Evaluating the examples\<close>

text \<open>The definitions that are unfolded to evaluate an example.\<close>

lemmas example_defs = exampleErrorLineState_def exampleErrorLineSnapshot_def exampleBrokenRunState_def
  exampleFoundToken_def exampleTwoStartsState_def exampleSecondStart_def exampleUnterminatedState_def
  exampleUnterminatedFlat_def exampleBrokenRunFlat_def exampleCommentState_def exampleCommentSnapshot_def
  exampleTextState_def exampleTextToken_def exampleTextSnapshot_def
  exampleEmptyTokenState_def exampleEmptyTokenSnapshot_def exampleOverrunState_def
  exampleOverrunSnapshot_def

lemmas eval_defs =
  tryFrom_def factory_def flattenLineTokens_def gpfArgs_def gpfThrows_def factoryLoop.simps
  factoryStep_def
  readMultilineComment_def readStringLiteral_def readQuotedIdentifier_def
  collectWhileContent_def collectLoop.simps substring_def castToken_def
  graphemePositionStartFrom_def ensureCommonError_def

section \<open>Properties of flattening\<close>

lemma flattenTokensLoop_eq:
  "flattenTokensLoop ts off ln flat idx =
     (flat @ map (\<lambda>(i, t). flatTokenOf off ln i t) (enumerate idx ts), idx + length ts)"
  by (induction ts arbitrary: flat idx) (simp_all add: flatTokenOf_def)

lemma flattenLinesLoop_eq:
  "lineNo + length ls = numLines \<Longrightarrow>
   flattenLinesLoop ls lineNo numLines tx lts flat off idx =
     \<lparr> FlattenedLines.text = tx @ textFrom ls,
       lineTerminators = lts @ termsFrom ls off,
       flatLineTokens = flat @ flatFrom ls lineNo off idx \<rparr>"
proof (induction ls arbitrary: lineNo tx lts flat off idx)
  case Nil
  then show ?case by simp
next
  case (Cons line rest)
  show ?case
  proof (cases rest)
    case Nil
    with Cons.prems show ?thesis
      by (auto simp add: flattenTokensLoop_eq lineLength_def Let_def add.assoc)
  next
    case (Cons l2 rest2)
    with Cons.prems have ne: "lineNo \<noteq> numLines - 1" by auto
    have tf: "textFrom (line # rest) = TLine.text line @ lineTerminator line @ textFrom rest"
      using Cons by simp
    from Cons.prems have "Suc lineNo + length rest = numLines" by simp
    note IH = Cons.IH[OF this]
    show ?thesis
      using ne by (simp add: IH tf flattenTokensLoop_eq lineLength_def Let_def add.assoc
                        del: textFrom.simps)
  qed
qed

lemma flattenLineTokens_eq:
  "flattenLineTokens state =
     \<lparr> FlattenedLines.text = textFrom (lines state),
       lineTerminators = termsFrom (lines state) 0,
       flatLineTokens = flatFrom (lines state) 0 0 0 \<rparr>"
  unfolding flattenLineTokens_def by (subst flattenLinesLoop_eq) simp_all

lemma length_flatFrom:
  "length (flatFrom ls ln off idx) = tokensBefore ls (length ls)"
  by (induction ls arbitrary: ln off idx) (simp_all add: tokensBefore_def)

lemma flatIndex_flatTokenOf [simp]: "flatIndex (flatTokenOf off ln i t) = i"
  by (simp add: flatTokenOf_def)

lemma map_flatIndex_line:
  "map flatIndex (map (\<lambda>(i, t). flatTokenOf off ln i t) (enumerate idx ts)) =
     [idx ..< idx + length ts]"
proof (induction ts arbitrary: idx)
  case Nil
  then show ?case by simp
next
  case (Cons t ts)
  have "[idx ..< idx + length (t # ts)] = idx # [Suc idx ..< Suc idx + length ts]"
    by (simp add: upt_rec[of idx] Suc_le_eq)
  with Cons.IH[of "Suc idx"] show ?case by simp
qed

lemma map_flatIndex_flatFrom:
  "map flatIndex (flatFrom ls ln off idx) = [idx ..< idx + length (flatFrom ls ln off idx)]"
proof (induction ls arbitrary: ln off idx)
  case Nil
  then show ?case by simp
next
  case (Cons line rest)
  let ?k = "length (TLine.tokens line)"
  let ?r = "flatFrom rest (Suc ln) (off + lineLength line) (idx + ?k)"
  have "[idx ..< idx + ?k + length ?r] = [idx ..< idx + ?k] @ [idx + ?k ..< idx + ?k + length ?r]"
    by (metis le_add1 upt_add_eq_append)
  then show ?case
    using Cons.IH[of "Suc ln" "off + lineLength line" "idx + ?k"]
    by (simp add: map_flatIndex_line add.assoc del: map_map)
qed

lemma indexed_nth: "indexed flat \<Longrightarrow> i < length flat \<Longrightarrow> flatIndex (flat ! i) = i"
  unfolding indexed_def by (metis add_0 nth_map nth_upt)

lemma indexed_flatten: "indexed (flatLineTokens (flattenLineTokens state))"
  unfolding indexed_def flattenLineTokens_eq using map_flatIndex_flatFrom[of "lines state" 0 0 0]
  by simp

lemma flatFrom_nth:
  "n < length ls \<Longrightarrow> j < length (TLine.tokens (ls ! n)) \<Longrightarrow>
   tokensBefore ls n + j < length (flatFrom ls ln off idx) \<and>
   flatFrom ls ln off idx ! (tokensBefore ls n + j) =
     flatTokenOf (off + lineOffset ls n) (ln + n) (idx + tokensBefore ls n + j)
       (TLine.tokens (ls ! n) ! j)"
proof (induction ls arbitrary: n ln off idx)
  case Nil
  then show ?case by simp
next
  case (Cons line rest)
  show ?case
  proof (cases n)
    case 0
    with Cons.prems show ?thesis
      by (simp add: tokensBefore_def lineOffset_def nth_append nth_enumerate_eq)
  next
    case (Suc m)
    with Cons.prems have m: "m < length rest" "j < length (TLine.tokens (rest ! m))" by simp_all
    from Cons.IH[OF m, of "Suc ln" "off + lineLength line" "idx + length (TLine.tokens line)"] Suc
    show ?thesis
      by (simp add: tokensBefore_def lineOffset_def nth_append add.assoc)
  qed
qed

lemma termsFrom_length [simp]: "length (termsFrom ls off) = length ls"
  by (induction ls arbitrary: off) simp_all

lemma termsFrom_nth:
  "n < length ls \<Longrightarrow>
   termsFrom ls off ! n =
     \<lparr> LineTerminator.codeUnit = off + lineOffset ls n + length (TLine.text (ls ! n)),
       LineTerminator.text = lineTerminator (ls ! n) \<rparr>"
proof (induction ls arbitrary: n off)
  case Nil
  then show ?case by simp
next
  case (Cons line rest)
  then show ?case
    by (cases n) (simp_all add: lineOffset_def add.assoc)
qed

lemma textFrom_concat:
  "ls \<noteq> [] \<longrightarrow> lineTerminator (last ls) = [] \<Longrightarrow>
   textFrom ls = concat (map (\<lambda>l. TLine.text l @ lineTerminator l) ls)"
  by (induction ls rule: textFrom.induct) simp_all

lemma tryFrom_Ok_text:
  "tryFrom gpf state = Some (Ok snapshot) \<Longrightarrow>
   LexerSnapshot.text snapshot = textFrom (lines state) \<and>
   LexerSnapshot.lineTerminators snapshot = termsFrom (lines state) 0"
  by (auto simp add: tryFrom_def factory_def flattenLineTokens_eq Let_def
           split: option.splits sum.splits prod.splits)

lemma example_comment_tryFrom:
  "tryFrom gpfArgs exampleCommentState = Some (Ok exampleCommentSnapshot)"
  by (simp add: tryFrom_def factory_def flattenLineTokens_def exampleCommentState_def
        exampleCommentSnapshot_def gpfArgs_def factoryLoop.simps factoryStep_def
        readMultilineComment_def collectWhileContent_def collectLoop.simps substring_def
        castToken_def)

text \<open>
  C3. When the terminator of the final line is the empty string, as the data model fixes it,
  the text of the snapshot that \<open>tryFrom\<close> returns is the concatenation, over the lines in
  order, of the text of the line followed by its line terminator.
\<close>

theorem snapshot_text_roundtrip:
  assumes "tryFrom gpf state = Some (Ok snapshot)"
    and "lines state \<noteq> [] \<longrightarrow> lineTerminator (last (lines state)) = []"
  shows "LexerSnapshot.text snapshot =
           concat (map (\<lambda>line. TLine.text line @ lineTerminator line) (lines state))"
  using tryFrom_Ok_text[OF assms(1)] textFrom_concat[OF assms(2)] by simp

theorem snapshot_text_roundtrip_witness:
  "tryFrom gpfArgs exampleCommentState = Some (Ok exampleCommentSnapshot) \<and>
   lineTerminator (last (lines exampleCommentState)) = [] \<and>
   LexerSnapshot.text exampleCommentSnapshot =
     ''abc /*X'' @ [CHR 10] @ ''X'' @ [CHR 10] @ ''X*/''"
proof -
  have h: "lines exampleCommentState \<noteq> [] \<longrightarrow> lineTerminator (last (lines exampleCommentState)) = []"
    by (simp add: exampleCommentState_def)
  from snapshot_text_roundtrip[OF example_comment_tryFrom h] h example_comment_tryFrom
  show ?thesis by (simp add: exampleCommentState_def)
qed

text \<open>
  C7. Flattening records one line terminator for every line, with or without tokens: the
  terminator of line \<open>n\<close> is recorded at the offset accumulated over the preceding lines,
  \<open>text.length + lineTerminator.length\<close> each, plus the length of the text of line \<open>n\<close>.
  It gives the token \<open>j\<close> of line \<open>n\<close> the absolute positions obtained by adding the
  accumulated offset to its line-relative offsets; \<open>lineCodeUnit\<close> is the line-relative offset
  and \<open>lineNumber\<close> is \<open>n\<close>, for the start and for the end. There are as many flat tokens as
  line tokens, and the flat indices are \<open>0, 1, 2, \<dots>\<close> in the order of emission, the token \<open>j\<close>
  of line \<open>n\<close> coming after all tokens of the lines before.
\<close>

theorem flatten_positions:
  "length (FlattenedLines.lineTerminators (flattenLineTokens state)) = length (lines state) \<and>
   (\<forall>n < length (lines state).
      FlattenedLines.lineTerminators (flattenLineTokens state) ! n =
        \<lparr> LineTerminator.codeUnit =
            lineOffset (lines state) n + length (TLine.text (lines state ! n)),
          LineTerminator.text = lineTerminator (lines state ! n) \<rparr> \<and>
      (\<forall>j < length (TLine.tokens (lines state ! n)).
         tokensBefore (lines state) n + j < length (flatLineTokens (flattenLineTokens state)) \<and>
         flatLineTokens (flattenLineTokens state) ! (tokensBefore (lines state) n + j) =
           \<lparr> IToken.kind = IToken.kind (TLine.tokens (lines state ! n) ! j),
             data = data (TLine.tokens (lines state ! n) ! j),
             positionStart =
               \<lparr> TokenPosition.codeUnit =
                   lineOffset (lines state) n + positionStart (TLine.tokens (lines state ! n) ! j),
                 lineCodeUnit = positionStart (TLine.tokens (lines state ! n) ! j),
                 lineNumber = n \<rparr>,
             positionEnd =
               \<lparr> TokenPosition.codeUnit =
                   lineOffset (lines state) n + positionEnd (TLine.tokens (lines state ! n) ! j),
                 lineCodeUnit = positionEnd (TLine.tokens (lines state ! n) ! j),
                 lineNumber = n \<rparr>,
             flatIndex = tokensBefore (lines state) n + j \<rparr>)) \<and>
   length (flatLineTokens (flattenLineTokens state)) =
     tokensBefore (lines state) (length (lines state)) \<and>
   map flatIndex (flatLineTokens (flattenLineTokens state)) =
     [0 ..< length (flatLineTokens (flattenLineTokens state))]"
proof -
  have a: "tokensBefore (lines state) n + j < length (flatLineTokens (flattenLineTokens state))"
    if "n < length (lines state)" "j < length (TLine.tokens (lines state ! n))" for n j
    using flatFrom_nth[OF that, of 0 0 0] by (simp add: flattenLineTokens_eq)
  have b: "flatLineTokens (flattenLineTokens state) ! (tokensBefore (lines state) n + j) =
           flatTokenOf (lineOffset (lines state) n) n (tokensBefore (lines state) n + j)
             (TLine.tokens (lines state ! n) ! j)"
    if "n < length (lines state)" "j < length (TLine.tokens (lines state ! n))" for n j
    using flatFrom_nth[OF that, of 0 0 0] by (simp add: flattenLineTokens_eq)
  have c: "FlattenedLines.lineTerminators (flattenLineTokens state) ! n =
           \<lparr> LineTerminator.codeUnit =
               lineOffset (lines state) n + length (TLine.text (lines state ! n)),
             LineTerminator.text = lineTerminator (lines state ! n) \<rparr>"
    if "n < length (lines state)" for n
    using termsFrom_nth[OF that, of 0] by (simp add: flattenLineTokens_eq)
  have d: "length (FlattenedLines.lineTerminators (flattenLineTokens state)) = length (lines state)"
    by (simp add: flattenLineTokens_eq)
  have e: "map flatIndex (flatLineTokens (flattenLineTokens state)) =
           [0 ..< length (flatLineTokens (flattenLineTokens state))]"
    using indexed_flatten[of state] by (simp add: indexed_def)
  have f: "length (flatLineTokens (flattenLineTokens state)) =
           tokensBefore (lines state) (length (lines state))"
    by (simp add: flattenLineTokens_eq length_flatFrom)
  have t: "\<forall>n < length (lines state).
      FlattenedLines.lineTerminators (flattenLineTokens state) ! n =
        \<lparr> LineTerminator.codeUnit =
            lineOffset (lines state) n + length (TLine.text (lines state ! n)),
          LineTerminator.text = lineTerminator (lines state ! n) \<rparr> \<and>
      (\<forall>j < length (TLine.tokens (lines state ! n)).
         tokensBefore (lines state) n + j < length (flatLineTokens (flattenLineTokens state)) \<and>
         flatLineTokens (flattenLineTokens state) ! (tokensBefore (lines state) n + j) =
           \<lparr> IToken.kind = IToken.kind (TLine.tokens (lines state ! n) ! j),
             data = data (TLine.tokens (lines state ! n) ! j),
             positionStart =
               \<lparr> TokenPosition.codeUnit =
                   lineOffset (lines state) n + positionStart (TLine.tokens (lines state ! n) ! j),
                 lineCodeUnit = positionStart (TLine.tokens (lines state ! n) ! j),
                 lineNumber = n \<rparr>,
             positionEnd =
               \<lparr> TokenPosition.codeUnit =
                   lineOffset (lines state) n + positionEnd (TLine.tokens (lines state ! n) ! j),
                 lineCodeUnit = positionEnd (TLine.tokens (lines state ! n) ! j),
                 lineNumber = n \<rparr>,
             flatIndex = tokensBefore (lines state) n + j \<rparr>)"
    using a b c by (simp add: flatTokenOf_def)
  from d t f e show ?thesis by (intro conjI)
qed

theorem flatten_positions_witness:
  "(1::nat) < length (lines exampleBlankLineState) \<and>
   TLine.tokens (lines exampleBlankLineState ! 1) = [] \<and>
   FlattenedLines.lineTerminators (flattenLineTokens exampleBlankLineState) ! 1 =
     \<lparr> LineTerminator.codeUnit = 2, LineTerminator.text = [CHR 10] \<rparr> \<and>
   (2::nat) < length (lines exampleBlankLineState) \<and>
   (0::nat) < length (TLine.tokens (lines exampleBlankLineState ! 2)) \<and>
   flatLineTokens (flattenLineTokens exampleBlankLineState) ! 1 =
     \<lparr> IToken.kind = SingleLine Identifier, data = ''b'',
       positionStart = \<lparr> TokenPosition.codeUnit = 3, lineCodeUnit = 0, lineNumber = 2 \<rparr>,
       positionEnd = \<lparr> TokenPosition.codeUnit = 4, lineCodeUnit = 1, lineNumber = 2 \<rparr>,
       flatIndex = 1 \<rparr> \<and>
   FlattenedLines.lineTerminators (flattenLineTokens exampleBlankLineState) ! 2 =
     \<lparr> LineTerminator.codeUnit = 4, LineTerminator.text = [] \<rparr> \<and>
   length (FlattenedLines.lineTerminators (flattenLineTokens exampleBlankLineState)) = 3 \<and>
   map flatIndex (flatLineTokens (flattenLineTokens exampleBlankLineState)) = [0, 1]"
proof -
  have h1: "(1::nat) < length (lines exampleBlankLineState)"
    by (simp add: exampleBlankLineState_def)
  have h2: "(2::nat) < length (lines exampleBlankLineState)"
    by (simp add: exampleBlankLineState_def)
  have h3: "(0::nat) < length (TLine.tokens (lines exampleBlankLineState ! 2))"
    by (simp add: exampleBlankLineState_def)
  have e1: "TLine.tokens (lines exampleBlankLineState ! 1) = []"
    by (simp add: exampleBlankLineState_def)
  have len: "length (lines exampleBlankLineState) = 3"
    by (simp add: exampleBlankLineState_def)
  have upt2: "[0 ..< 2] = [0, 1::nat]"
    by (simp add: upt_rec)
  have tb: "tokensBefore (lines exampleBlankLineState) 2 = 1"
    "tokensBefore (lines exampleBlankLineState) 3 = 2"
    by (simp_all add: tokensBefore_def exampleBlankLineState_def numeral_2_eq_2 numeral_3_eq_3)
  have lo: "lineOffset (lines exampleBlankLineState) (Suc 0) = 2"
    "lineOffset (lines exampleBlankLineState) 2 = 3"
    by (simp_all add: lineOffset_def lineLength_def exampleBlankLineState_def numeral_2_eq_2)
  have l1: "lines exampleBlankLineState ! Suc 0 =
       \<lparr> TLine.kind = Touched, TLine.text = [], lineTerminator = [CHR 10],
         TLine.tokens = [], modeStart = Default, modeEnd = Default \<rparr>"
    by (simp add: exampleBlankLineState_def)
  have l2: "lines exampleBlankLineState ! 2 =
       \<lparr> TLine.kind = Touched, TLine.text = ''b'', lineTerminator = [],
         TLine.tokens =
           [\<lparr> IToken.kind = SingleLine Identifier, data = ''b'',
              positionStart = 0, positionEnd = 1 \<rparr>],
         modeStart = Default, modeEnd = Default \<rparr>"
    by (simp add: exampleBlankLineState_def)
  note inst = flatten_positions[of exampleBlankLineState]
  from inst have n: "length (FlattenedLines.lineTerminators (flattenLineTokens exampleBlankLineState)) = 3"
    using len by simp
  from inst h1 have t1: "FlattenedLines.lineTerminators (flattenLineTokens exampleBlankLineState) ! 1 =
     \<lparr> LineTerminator.codeUnit = 2, LineTerminator.text = [CHR 10] \<rparr>"
    using lo l1 by simp
  from inst h2 have t2: "FlattenedLines.lineTerminators (flattenLineTokens exampleBlankLineState) ! 2 =
     \<lparr> LineTerminator.codeUnit = 4, LineTerminator.text = [] \<rparr>"
    using lo l2 by simp
  note tok = inst[THEN conjunct2, THEN conjunct1, rule_format, OF h2, THEN conjunct2,
                  rule_format, OF h3, THEN conjunct2]
  have f1: "flatLineTokens (flattenLineTokens exampleBlankLineState) ! 1 =
     \<lparr> IToken.kind = SingleLine Identifier, data = ''b'',
       positionStart = \<lparr> TokenPosition.codeUnit = 3, lineCodeUnit = 0, lineNumber = 2 \<rparr>,
       positionEnd = \<lparr> TokenPosition.codeUnit = 4, lineCodeUnit = 1, lineNumber = 2 \<rparr>,
       flatIndex = 1 \<rparr>"
    using tok by (simp add: lo tb l2)
  from inst have ix: "map flatIndex (flatLineTokens (flattenLineTokens exampleBlankLineState)) = [0, 1]"
    using len tb upt2 by simp
  from h1 e1 t1 h2 h3 f1 t2 n ix show ?thesis by (intro conjI)
qed

section \<open>The loop of the factory\<close>

lemma collectLoop_snd:
  "snd (collectLoop fts c i acc) =
     i + length (takeWhile (\<lambda>t. IToken.kind t = c) (drop i fts))"
proof (induction fts c i acc rule: collectLoop.induct)
  case (1 fts c i acc)
  show ?case
  proof (cases "i < length fts")
    case False
    then show ?thesis by (subst collectLoop.simps) simp
  next
    case True
    then have d: "drop i fts = fts ! i # drop (Suc i) fts"
      by (simp add: Cons_nth_drop_Suc)
    show ?thesis
    proof (cases "IToken.kind (fts ! i) = c")
      case False
      with True d show ?thesis by (subst collectLoop.simps) simp
    next
      case k: True
      with True d "1.IH" show ?thesis by (subst collectLoop.simps) simp
    qed
  qed
qed

lemma drop_takeWhile_dropWhile:
  "drop (i + length (takeWhile P (drop i xs))) xs = dropWhile P (drop i xs)"
  by (metis add.commute drop_drop dropWhile_eq_drop)

lemma maybeTokenEnd_collect:
  assumes "indexed fts" "i < length fts"
  shows "maybeTokenEnd (collectWhileContent fts (fts ! i) c) =
           (case dropWhile (\<lambda>t. IToken.kind t = c) (drop (Suc i) fts) of
              [] \<Rightarrow> None | e # r \<Rightarrow> Some e)"
proof -
  let ?P = "\<lambda>t. IToken.kind t = c"
  let ?j = "Suc i + length (takeWhile ?P (drop (Suc i) fts))"
  have fi: "flatIndex (fts ! i) = i" using assms by (rule indexed_nth)
  have s: "snd (collectLoop fts c (Suc i) []) = ?j" by (rule collectLoop_snd)
  have m: "maybeTokenEnd (collectWhileContent fts (fts ! i) c) =
           (if ?j < length fts then Some (fts ! ?j) else None)"
    using s by (simp add: collectWhileContent_def fi case_prod_unfold)
  have dw: "dropWhile ?P (drop (Suc i) fts) = drop ?j fts"
    by (rule drop_takeWhile_dropWhile[symmetric])
  show ?thesis
  proof (cases "?j < length fts")
    case True
    then have d: "drop ?j fts = fts ! ?j # drop (Suc ?j) fts" by (simp add: Cons_nth_drop_Suc)
    show ?thesis unfolding m dw d using True by simp
  next
    case False
    then have d: "drop ?j fts = []" by simp
    show ?thesis unfolding m dw d using False by simp
  qed
qed

lemma dropWhile_indexed:
  assumes "indexed fts" "dropWhile P (drop (Suc i) fts) = e # r"
  shows "i < flatIndex e \<and> flatIndex e < length fts \<and> r = drop (Suc (flatIndex e)) fts \<and>
         fts ! flatIndex e = e"
proof -
  let ?j = "Suc i + length (takeWhile P (drop (Suc i) fts))"
  have dw: "drop ?j fts = e # r"
    using assms(2) drop_takeWhile_dropWhile[of "Suc i" P fts] by simp
  then have lt: "?j < length fts" by (metis drop_all list.distinct(1) not_le)
  then have "drop ?j fts = fts ! ?j # drop (Suc ?j) fts" by (simp add: Cons_nth_drop_Suc)
  with dw have e: "e = fts ! ?j" and r: "r = drop (Suc ?j) fts" by simp_all
  have "flatIndex e = ?j" using indexed_nth[OF assms(1) lt] e by simp
  with lt e r show ?thesis by simp
qed

lemma tokensOf_append [simp]: "tokensOf (xs @ ys) = tokensOf xs @ tokensOf ys"
  by (induction xs rule: tokensOf.induct) simp_all

lemma commentsOf_append [simp]: "commentsOf (xs @ ys) = commentsOf xs @ commentsOf ys"
  by (induction xs rule: commentsOf.induct) simp_all

lemma withEmitted_cons:
  "withEmitted toks coms (consEmitted x r) =
     withEmitted (toks @ tokensOf [x]) (coms @ commentsOf [x]) r"
  by (cases r; cases x) (simp_all add: withEmitted_def)

lemma stitchWalk_open:
  assumes "contentKindOf (IToken.kind s) = Some c"
  shows "stitchWalk gpf tx lts (Some s) rest =
           (case dropWhile (\<lambda>t. IToken.kind t = c) rest of
              [] \<Rightarrow> Inl (unterminatedThrow gpf tx lts s)
            | e # r \<Rightarrow>
                if IToken.kind e \<noteq> endKindOf (IToken.kind s)
                then Inl (InvariantError invariantMessage e)
                else consEmitted (emitStitched tx s e) (stitchWalk gpf tx lts None r))"
  using assms by (induction rest) auto

lemma factoryStep_single:
  assumes "contentKindOf (IToken.kind (flatLineTokens fl ! i)) = None"
  shows "factoryStep gpf fl i toks coms =
           Inr (Suc i, toks @ tokensOf [emitSingle (flatLineTokens fl ! i)],
                coms @ commentsOf [emitSingle (flatLineTokens fl ! i)])"
  using assms
  by (cases "IToken.kind (flatLineTokens fl ! i)") (simp_all add: factoryStep_def emitSingle_def)

lemma factoryStep_start:
  assumes "indexed (flatLineTokens fl)" "i < length (flatLineTokens fl)"
    and "contentKindOf (IToken.kind (flatLineTokens fl ! i)) = Some c"
  shows "factoryStep gpf fl i toks coms =
           (case dropWhile (\<lambda>t. IToken.kind t = c) (drop (Suc i) (flatLineTokens fl)) of
              [] \<Rightarrow> Inl (unterminatedThrow gpf (FlattenedLines.text fl)
                           (FlattenedLines.lineTerminators fl) (flatLineTokens fl ! i))
            | e # r \<Rightarrow>
                if IToken.kind e \<noteq> endKindOf (IToken.kind (flatLineTokens fl ! i))
                then Inl (InvariantError invariantMessage e)
                else Inr (Suc (flatIndex e),
                          toks @ tokensOf [emitStitched (FlattenedLines.text fl) (flatLineTokens fl ! i) e],
                          coms @ commentsOf [emitStitched (FlattenedLines.text fl) (flatLineTokens fl ! i) e]))"
proof -
  note m = maybeTokenEnd_collect[OF assms(1,2)]
  show ?thesis
    using assms(3)
    by (cases "IToken.kind (flatLineTokens fl ! i)")
       (auto simp add: factoryStep_def readMultilineComment_def readQuotedIdentifier_def
          readStringLiteral_def m emitStitched_def unterminatedThrow_def Let_def
          split: list.splits sum.splits
          simp del: dropWhile_eq_Nil_conv)
qed

lemma factoryLoop_walk:
  assumes ix: "indexed (flatLineTokens fl)"
  shows "factoryLoop gpf fl i toks coms =
           Some (withEmitted toks coms
                   (stitchWalk gpf (FlattenedLines.text fl) (FlattenedLines.lineTerminators fl)
                      None (drop i (flatLineTokens fl))))"
proof (induction "length (flatLineTokens fl) - i" arbitrary: i toks coms rule: less_induct)
  case less
  let ?fts = "flatLineTokens fl"
  show ?case
  proof (cases "i < length ?fts")
    case False
    then show ?thesis
      by (subst factoryLoop.simps) (simp add: withEmitted_def)
  next
    case True
    then have d: "drop i ?fts = ?fts ! i # drop (Suc i) ?fts"
      by (simp add: Cons_nth_drop_Suc)
    show ?thesis
    proof (cases "contentKindOf (IToken.kind (?fts ! i))")
      case None
      have IH: "factoryLoop gpf fl (Suc i) toks' coms' =
                Some (withEmitted toks' coms'
                   (stitchWalk gpf (FlattenedLines.text fl) (FlattenedLines.lineTerminators fl)
                      None (drop (Suc i) ?fts)))" for toks' coms'
        using True by (intro less) simp
      show ?thesis
        using True None
        by (subst factoryLoop.simps)
           (simp add: factoryStep_single[OF None] IH d withEmitted_cons)
    next
      case (Some c)
      note st = factoryStep_start[OF ix True Some]
      note so = stitchWalk_open[OF Some]
      show ?thesis
      proof (cases "dropWhile (\<lambda>t. IToken.kind t = c) (drop (Suc i) ?fts)")
        case Nil
        have s1: "factoryStep gpf fl i toks coms =
                    Inl (unterminatedThrow gpf (FlattenedLines.text fl)
                           (FlattenedLines.lineTerminators fl) (?fts ! i))"
          unfolding st Nil by simp
        have s2: "stitchWalk gpf (FlattenedLines.text fl) (FlattenedLines.lineTerminators fl)
                    (Some (?fts ! i)) (drop (Suc i) ?fts) =
                    Inl (unterminatedThrow gpf (FlattenedLines.text fl)
                           (FlattenedLines.lineTerminators fl) (?fts ! i))"
          unfolding so Nil by simp
        from True Some show ?thesis
          by (subst factoryLoop.simps) (simp add: s1 s2 d withEmitted_def)
      next
        case (Cons e r)
        note di = dropWhile_indexed[OF ix Cons]
        show ?thesis
        proof (cases "IToken.kind e \<noteq> endKindOf (IToken.kind (?fts ! i))")
          case ne: True
          have s1: "factoryStep gpf fl i toks coms = Inl (InvariantError invariantMessage e)"
            unfolding st Cons using ne by simp
          have s2: "stitchWalk gpf (FlattenedLines.text fl) (FlattenedLines.lineTerminators fl)
                      (Some (?fts ! i)) (drop (Suc i) ?fts) =
                    Inl (InvariantError invariantMessage e)"
            unfolding so Cons using ne by simp
          from True Some show ?thesis
            by (subst factoryLoop.simps) (simp add: s1 s2 d withEmitted_def)
        next
          case False
          have IH: "factoryLoop gpf fl (Suc (flatIndex e)) toks' coms' =
                Some (withEmitted toks' coms'
                   (stitchWalk gpf (FlattenedLines.text fl) (FlattenedLines.lineTerminators fl)
                      None (drop (Suc (flatIndex e)) ?fts)))" for toks' coms'
            using di by (intro less) linarith
          from di have r: "r = drop (Suc (flatIndex e)) ?fts" by simp
          have s1: "factoryStep gpf fl i toks coms =
                      Inr (Suc (flatIndex e),
                           toks @ tokensOf [emitStitched (FlattenedLines.text fl) (?fts ! i) e],
                           coms @ commentsOf [emitStitched (FlattenedLines.text fl) (?fts ! i) e])"
            unfolding st Cons using False by simp
          have s2: "stitchWalk gpf (FlattenedLines.text fl) (FlattenedLines.lineTerminators fl)
                      (Some (?fts ! i)) (drop (Suc i) ?fts) =
                    consEmitted (emitStitched (FlattenedLines.text fl) (?fts ! i) e)
                      (stitchWalk gpf (FlattenedLines.text fl) (FlattenedLines.lineTerminators fl)
                         None (drop (Suc (flatIndex e)) ?fts))"
            unfolding so Cons using False r by simp
          from True Some show ?thesis
            by (subst factoryLoop.simps) (simp add: s1 s2 d IH withEmitted_cons)
        qed
      qed
    qed
  qed
qed

section \<open>Properties of the walk\<close>

lemma tryFrom_walk:
  "tryFrom gpf state =
     Some (resultOf (FlattenedLines.text (flattenLineTokens state))
             (FlattenedLines.lineTerminators (flattenLineTokens state))
             (stitchWalk gpf (FlattenedLines.text (flattenLineTokens state))
                (FlattenedLines.lineTerminators (flattenLineTokens state)) None
                (flatLineTokens (flattenLineTokens state))))"
  using factoryLoop_walk[OF indexed_flatten, of gpf state 0 "[]" "[]"]
  by (simp add: tryFrom_def factory_def Let_def withEmitted_def resultOf_def split: sum.splits)

lemma consEmitted_append: "consEmitted x (appendEmitted xs r) = appendEmitted (x # xs) r"
  by (cases r) simp_all

lemma appendEmitted_Nil [simp]: "appendEmitted [] r = r"
  by (cases r) simp_all

lemma stitchWalk_closed_prefix:
  "closedFrom (map_option IToken.kind opn) (map IToken.kind pre) \<Longrightarrow>
   \<exists>items. stitchWalk gpf tx lts opn pre = Inr items \<and>
           stitchWalk gpf tx lts opn (pre @ rest) =
             appendEmitted items (stitchWalk gpf tx lts None rest)"
proof (induction pre arbitrary: opn)
  case Nil
  then show ?case by (cases opn) simp_all
next
  case (Cons t pre)
  show ?case
  proof (cases opn)
    case None
    show ?thesis
    proof (cases "contentKindOf (IToken.kind t)")
      case n: None
      with Cons.prems None have "closedFrom (map_option IToken.kind None) (map IToken.kind pre)"
        by simp
      from Cons.IH[OF this] obtain items where
        "stitchWalk gpf tx lts None pre = Inr items"
        "stitchWalk gpf tx lts None (pre @ rest) = appendEmitted items (stitchWalk gpf tx lts None rest)"
        by blast
      with None n show ?thesis by (simp add: consEmitted_append)
    next
      case (Some c)
      with Cons.prems None have "closedFrom (map_option IToken.kind (Some t)) (map IToken.kind pre)"
        by simp
      from Cons.IH[OF this] None Some show ?thesis by simp
    qed
  next
    case (Some s)
    show ?thesis
    proof (cases "Some (IToken.kind t) = contentKindOf (IToken.kind s)")
      case True
      with Cons.prems Some have "closedFrom (map_option IToken.kind (Some s)) (map IToken.kind pre)"
        by simp
      from Cons.IH[OF this] Some True show ?thesis by simp
    next
      case False
      with Cons.prems Some have e: "IToken.kind t = endKindOf (IToken.kind s)"
        and "closedFrom (map_option IToken.kind None) (map IToken.kind pre)"
        by simp_all
      from Cons.IH[OF this(2)] obtain items where
        "stitchWalk gpf tx lts None pre = Inr items"
        "stitchWalk gpf tx lts None (pre @ rest) = appendEmitted items (stitchWalk gpf tx lts None rest)"
        by blast
      with Some False e show ?thesis by (simp add: consEmitted_append)
    qed
  qed
qed

lemma stitchWalk_after_closed:
  assumes "closedFrom None (map IToken.kind pre)"
    and "stitchWalk gpf tx lts None rest = Inl e"
  shows "stitchWalk gpf tx lts None (pre @ rest) = Inl e"
  using stitchWalk_closed_prefix[of None pre gpf tx lts rest] assms by auto

lemma dropWhile_all: "list_all P xs \<Longrightarrow> dropWhile P (xs @ ys) = dropWhile P ys"
  by (induction xs) simp_all

lemma stitchWalk_unterminated:
  assumes "contentKindOf (IToken.kind s) = Some c"
    and "list_all (\<lambda>t. IToken.kind t = c) contents"
  shows "stitchWalk gpf tx lts None (s # contents) = Inl (unterminatedThrow gpf tx lts s)"
proof -
  have "dropWhile (\<lambda>t. IToken.kind t = c) contents = []"
    using assms(2) by (simp add: list_all_iff)
  then show ?thesis
    using assms(1) by (simp add: stitchWalk_open[OF assms(1)] del: dropWhile_eq_Nil_conv)
qed

lemma stitchWalk_invariant:
  assumes "contentKindOf (IToken.kind s) = Some c"
    and "list_all (\<lambda>t. IToken.kind t = c) contents"
    and "IToken.kind e \<noteq> c" and "IToken.kind e \<noteq> endKindOf (IToken.kind s)"
  shows "stitchWalk gpf tx lts None (s # contents @ e # post) =
           Inl (InvariantError invariantMessage e)"
  using assms dropWhile_all[of "\<lambda>t. IToken.kind t = c" contents "e # post"]
  by (simp add: stitchWalk_open[OF assms(1)])

lemma stitchWalk_valid_kinds:
  "enclosedFrom (map_option IToken.kind opn) (map IToken.kind ts) \<Longrightarrow>
   stitchWalk gpf tx lts opn ts = Inr items \<Longrightarrow>
   list_all (\<lambda>t. isTokenKind (IToken.kind t)) (tokensOf items)"
proof (induction ts arbitrary: opn items)
  case Nil
  then show ?case by (cases opn) simp_all
next
  case (Cons t ts)
  show ?case
  proof (cases opn)
    case None
    show ?thesis
    proof (cases "contentKindOf (IToken.kind t)")
      case n: None
      with Cons.prems None obtain items' where
        w: "stitchWalk gpf tx lts None ts = Inr items'" and i: "items = emitSingle t # items'"
        by (cases "stitchWalk gpf tx lts None ts") auto
      from Cons.prems None n have en: "enclosedFrom (map_option IToken.kind None) (map IToken.kind ts)"
        and nt: "\<not> isFragmentTail (IToken.kind t)" by simp_all
      have "list_all (\<lambda>t. isTokenKind (IToken.kind t)) (tokensOf [emitSingle t])"
        using n nt by (cases "IToken.kind t") (simp_all add: emitSingle_def castToken_def)
      with Cons.IH[OF en w] i show ?thesis
        by (metis append_Cons append_Nil list_all_append tokensOf_append)
    next
      case (Some c)
      with Cons.prems None show ?thesis
        using Cons.IH[of "Some t" items] by simp
    qed
  next
    case (Some s)
    show ?thesis
    proof (cases "Some (IToken.kind t) = contentKindOf (IToken.kind s)")
      case True
      with Cons.prems Some show ?thesis
        using Cons.IH[of "Some s" items] by simp
    next
      case False
      show ?thesis
      proof (cases "IToken.kind t = endKindOf (IToken.kind s)")
        case f: False
        with Cons.prems Some False show ?thesis by simp
      next
        case e: True
        with Cons.prems Some False obtain items' where
          w: "stitchWalk gpf tx lts None ts = Inr items'"
          and i: "items = emitStitched tx s t # items'"
          by (cases "stitchWalk gpf tx lts None ts") auto
        from Cons.prems Some False e
        have en: "enclosedFrom (map_option IToken.kind None) (map IToken.kind ts)" by simp
        have "list_all (\<lambda>t. isTokenKind (IToken.kind t)) (tokensOf [emitStitched tx s t])"
          by (cases "IToken.kind s") (simp_all add: emitStitched_def)
        with Cons.IH[OF en w] i show ?thesis
          by (metis append_Cons append_Nil list_all_append tokensOf_append)
      qed
    qed
  qed
qed

section \<open>The result of tryFrom\<close>

text \<open>
  C6. For every state \<open>tryFrom\<close> returns, and what it returns is a \<open>Result\<close>: \<open>Ok\<close> with a
  snapshot or \<open>Err\<close> with an error. The loop of the factory ends on every array of flat
  tokens that flattening produces, and every value thrown inside the factory is caught and
  wrapped.
\<close>

theorem tryFrom_returns_result:
  "(\<exists>snapshot. tryFrom gpf state = Some (Ok snapshot)) \<or>
   (\<exists>error. tryFrom gpf state = Some (Err error))"
  unfolding tryFrom_walk resultOf_def by (simp split: sum.splits)

theorem tryFrom_returns_result_witness:
  "(\<exists>snapshot. tryFrom gpfArgs exampleUnterminatedState = Some (Ok snapshot)) \<or>
   (\<exists>error. tryFrom gpfArgs exampleUnterminatedState = Some (Err error))"
  using tryFrom_returns_result[of gpfArgs exampleUnterminatedState] .

subsection \<open>The status of a line\<close>

lemma textFrom_kind: "textFrom (map (\<lambda>l. l\<lparr>TLine.kind := k l\<rparr>) ls) = textFrom ls"
  by (induction ls rule: textFrom.induct) simp_all

lemma termsFrom_kind: "termsFrom (map (\<lambda>l. l\<lparr>TLine.kind := k l\<rparr>) ls) off = termsFrom ls off"
  by (induction ls arbitrary: off) (simp_all add: lineLength_def)

lemma flatFrom_kind:
  "flatFrom (map (\<lambda>l. l\<lparr>TLine.kind := k l\<rparr>) ls) ln off idx = flatFrom ls ln off idx"
  by (induction ls arbitrary: ln off idx) (simp_all add: lineLength_def)

lemma flattenLineTokens_kind:
  "flattenLineTokens (state\<lparr>lines := map (\<lambda>l. l\<lparr>TLine.kind := k l\<rparr>) (lines state)\<rparr>) =
   flattenLineTokens state"
  by (simp add: flattenLineTokens_eq textFrom_kind termsFrom_kind flatFrom_kind)

text \<open>
  C1, as the code has it. \<open>tryFrom\<close> does not read the status of a line: its result is the
  result for the same lines with any other statuses. A line of status \<open>TouchedWithError\<close> or
  \<open>Error\<close> does not by itself make the result an \<open>Err\<close>.
\<close>

theorem tryFrom_ignores_line_kind:
  "tryFrom gpf (state\<lparr>lines := map (\<lambda>l. l\<lparr>TLine.kind := k l\<rparr>) (lines state)\<rparr>) =
   tryFrom gpf state"
  by (simp only: tryFrom_def factory_def flattenLineTokens_kind)

theorem tryFrom_ignores_line_kind_witness:
  "tryFrom gpfArgs
     (exampleErrorLineState
        \<lparr>lines := map (\<lambda>l. l\<lparr>TLine.kind := Untouched\<rparr>) (lines exampleErrorLineState)\<rparr>) =
   Some (Ok exampleErrorLineSnapshot)"
proof -
  have "tryFrom gpfArgs exampleErrorLineState = Some (Ok exampleErrorLineSnapshot)"
    by (simp add: example_defs eval_defs)
  with tryFrom_ignores_line_kind[of gpfArgs "\<lambda>l. Untouched" exampleErrorLineState]
  show ?thesis by simp
qed

text \<open>
  C1 as stated fails: the only line of the state below has the status \<open>TouchedWithError\<close>,
  and \<open>tryFrom\<close> returns \<open>Ok\<close> with the snapshot of the tokens read before the error.
\<close>

theorem error_line_counterexample:
  "TLine.kind (lines exampleErrorLineState ! 0) = TouchedWithError \<and>
   tryFrom gpfArgs exampleErrorLineState = Some (Ok exampleErrorLineSnapshot)"
  by (simp add: example_defs eval_defs)

subsection \<open>A start fragment closed by the wrong token\<close>

text \<open>
  C2 as stated fails: in the state below a comment start and its content are followed by an
  identifier; the \<open>InvariantError\<close> raised for it is caught by \<open>tryFrom\<close> and returned as an
  \<open>Err\<close>.
\<close>

theorem invariant_error_counterexample:
  "tryFrom gpfArgs exampleBrokenRunState =
     Some (Err (CommonError (InvariantError invariantMessage exampleFoundToken)))"
  by (simp add: example_defs eval_defs)

text \<open>
  C2, as the code has it. When the walk reaches a start fragment (every start fragment before
  it is closed) that is followed by matching content fragments and then by a token that is
  neither matching content nor the matching end, \<open>tryFrom\<close> returns \<open>Err\<close> with a
  \<open>CommonError\<close> around the \<open>InvariantError\<close> that names the token found.
\<close>

theorem invariant_error_returned_as_Err:
  assumes "flatLineTokens (flattenLineTokens state) = pre @ start # contents @ found # post"
    and "closedFrom None (map IToken.kind pre)"
    and "contentKindOf (IToken.kind start) = Some c"
    and "list_all (\<lambda>t. IToken.kind t = c) contents"
    and "IToken.kind found \<noteq> c"
    and "IToken.kind found \<noteq> endKindOf (IToken.kind start)"
  shows "tryFrom gpf state =
           Some (Err (CommonError (InvariantError invariantMessage found)))"
proof -
  have "stitchWalk gpf (FlattenedLines.text (flattenLineTokens state))
          (FlattenedLines.lineTerminators (flattenLineTokens state)) None
          (pre @ start # contents @ found # post) =
        Inl (InvariantError invariantMessage found)"
    by (rule stitchWalk_after_closed[OF assms(2)])
       (rule stitchWalk_invariant[OF assms(3,4,5,6)])
  then show ?thesis
    unfolding tryFrom_walk assms(1) by (simp add: resultOf_def ensureCommonError_def)
qed

theorem invariant_error_returned_as_Err_witness:
  "flatLineTokens (flattenLineTokens exampleBrokenRunState) =
     [exampleBrokenRunFlat ! 0] @ exampleBrokenRunFlat ! 1 # [exampleBrokenRunFlat ! 2] @
     exampleFoundToken # [] \<and>
   closedFrom None (map IToken.kind [exampleBrokenRunFlat ! 0]) \<and>
   IToken.kind (exampleBrokenRunFlat ! 1) = MultilineCommentStart \<and>
   list_all (\<lambda>t. IToken.kind t = MultilineCommentContent) [exampleBrokenRunFlat ! 2] \<and>
   IToken.kind exampleFoundToken = SingleLine Identifier \<and>
   tryFrom gpfArgs exampleBrokenRunState =
     Some (Err (CommonError (InvariantError invariantMessage exampleFoundToken)))"
proof -
  have f: "flatLineTokens (flattenLineTokens exampleBrokenRunState) =
     [exampleBrokenRunFlat ! 0] @ exampleBrokenRunFlat ! 1 # [exampleBrokenRunFlat ! 2] @
     exampleFoundToken # []"
    by (simp add: example_defs flattenLineTokens_def)
  have p: "closedFrom None (map IToken.kind [exampleBrokenRunFlat ! 0])"
    by (simp add: example_defs)
  have s: "IToken.kind (exampleBrokenRunFlat ! 1) = MultilineCommentStart"
    by (simp add: example_defs)
  then have c: "contentKindOf (IToken.kind (exampleBrokenRunFlat ! 1)) = Some MultilineCommentContent"
    by simp
  have l: "list_all (\<lambda>t. IToken.kind t = MultilineCommentContent) [exampleBrokenRunFlat ! 2]"
    by (simp add: example_defs)
  have k: "IToken.kind exampleFoundToken = SingleLine Identifier"
    by (simp add: example_defs)
  have n1: "IToken.kind exampleFoundToken \<noteq> MultilineCommentContent"
    by (simp add: example_defs)
  have n2: "IToken.kind exampleFoundToken \<noteq> endKindOf (IToken.kind (exampleBrokenRunFlat ! 1))"
    using s k by simp
  from invariant_error_returned_as_Err[OF f p c l n1 n2, of gpfArgs] f p s l k
  show ?thesis by blast
qed

subsection \<open>A start fragment that is never closed\<close>

text \<open>
  C4 as stated fails: the flat tokens of the state below end with a comment start that
  nothing follows, but a text literal start precedes it; the walk stops at the text literal
  start with an \<open>InvariantError\<close> and \<open>tryFrom\<close> returns it inside a \<open>CommonError\<close>.
  The result is a \<open>CommonError\<close> also when the start fragment is reached and
  \<^verbatim>\<open>graphemePositionFrom\<close> throws, the second branch of the theorem that follows.
\<close>

theorem unterminated_counterexample:
  "map IToken.kind (flatLineTokens (flattenLineTokens exampleTwoStartsState)) =
     [StringLiteralStart, MultilineCommentStart] \<and>
   tryFrom gpfArgs exampleTwoStartsState =
     Some (Err (CommonError (InvariantError invariantMessage exampleSecondStart)))"
  by (simp add: example_defs eval_defs)

text \<open>
  C4, as the code has it. When every start fragment before it is closed, a start fragment
  followed by matching content fragments and then by no further token makes \<open>tryFrom\<close> ask
  \<^verbatim>\<open>graphemePositionFrom\<close> for the grapheme position of the start fragment. When that returns,
  \<open>tryFrom\<close> returns \<open>Err\<close> with a \<open>LexerError\<close> around \<open>UnterminatedMultilineTokenError\<close>, of the
  kind of the start fragment and with that position. When it throws, \<open>tryFrom\<close> returns \<open>Err\<close>
  with a \<open>CommonError\<close> around what was thrown.
\<close>

theorem unterminated_multiline_token:
  assumes "flatLineTokens (flattenLineTokens state) = pre @ start # contents"
    and "closedFrom None (map IToken.kind pre)"
    and "(IToken.kind start, c, u) \<in>
           {(MultilineCommentStart, MultilineCommentContent, UnterminatedMultilineComment),
            (StringLiteralStart, StringLiteralContent, UnterminatedString),
            (QuotedIdentifierStart, QuotedIdentifierContent, UnterminatedQuotedIdentifier)}"
    and "list_all (\<lambda>t. IToken.kind t = c) contents"
  shows "tryFrom gpf state =
           Some (Err
             (case graphemePositionStartFrom gpf (FlattenedLines.text (flattenLineTokens state))
                     (FlattenedLines.lineTerminators (flattenLineTokens state)) start of
                Inr graphemePosition \<Rightarrow>
                  LexerError (UnterminatedMultilineTokenError graphemePosition u)
              | Inl x \<Rightarrow> CommonError (HelperError x)))"
proof -
  from assms(3) have c: "contentKindOf (IToken.kind start) = Some c"
    and u: "unterminatedKindOf (IToken.kind start) = u" by auto
  have "stitchWalk gpf (FlattenedLines.text (flattenLineTokens state))
          (FlattenedLines.lineTerminators (flattenLineTokens state)) None
          (pre @ start # contents) =
        Inl (unterminatedThrow gpf (FlattenedLines.text (flattenLineTokens state))
               (FlattenedLines.lineTerminators (flattenLineTokens state)) start)"
    by (rule stitchWalk_after_closed[OF assms(2)])
       (rule stitchWalk_unterminated[OF c assms(4)])
  then show ?thesis
    unfolding tryFrom_walk assms(1)
    by (simp add: resultOf_def unterminatedThrow_def ensureCommonError_def u split: sum.splits)
qed

theorem unterminated_multiline_token_witness:
  "flatLineTokens (flattenLineTokens exampleUnterminatedState) =
     [exampleUnterminatedFlat ! 0] @ exampleUnterminatedFlat ! 1 # [exampleUnterminatedFlat ! 2] \<and>
   closedFrom None (map IToken.kind [exampleUnterminatedFlat ! 0]) \<and>
   IToken.kind (exampleUnterminatedFlat ! 1) = MultilineCommentStart \<and>
   list_all (\<lambda>t. IToken.kind t = MultilineCommentContent) [exampleUnterminatedFlat ! 2] \<and>
   tryFrom gpfArgs exampleUnterminatedState =
     Some (Err (LexerError
       (UnterminatedMultilineTokenError (''a /*'' @ [CHR 10], 2, 0, 4)
          UnterminatedMultilineComment))) \<and>
   tryFrom gpfThrows exampleUnterminatedState =
     Some (Err (CommonError (HelperError (''a /*'' @ [CHR 10], 2, 0, 4))))"
proof -
  have f: "flatLineTokens (flattenLineTokens exampleUnterminatedState) =
     [exampleUnterminatedFlat ! 0] @ exampleUnterminatedFlat ! 1 # [exampleUnterminatedFlat ! 2]"
    by (simp add: example_defs flattenLineTokens_def)
  have p: "closedFrom None (map IToken.kind [exampleUnterminatedFlat ! 0])"
    by (simp add: example_defs)
  have k: "IToken.kind (exampleUnterminatedFlat ! 1) = MultilineCommentStart"
    by (simp add: example_defs)
  have m: "(IToken.kind (exampleUnterminatedFlat ! 1), MultilineCommentContent,
            UnterminatedMultilineComment) \<in>
           {(MultilineCommentStart, MultilineCommentContent, UnterminatedMultilineComment),
            (StringLiteralStart, StringLiteralContent, UnterminatedString),
            (QuotedIdentifierStart, QuotedIdentifierContent, UnterminatedQuotedIdentifier)}"
    using k by simp
  have l: "list_all (\<lambda>t. IToken.kind t = MultilineCommentContent) [exampleUnterminatedFlat ! 2]"
    by (simp add: example_defs)
  have g: "graphemePositionStartFrom gpfArgs
             (FlattenedLines.text (flattenLineTokens exampleUnterminatedState))
             (FlattenedLines.lineTerminators (flattenLineTokens exampleUnterminatedState))
             (exampleUnterminatedFlat ! 1) = Inr (''a /*'' @ [CHR 10], 2, 0, 4)"
    by (simp add: example_defs eval_defs)
  have h: "graphemePositionStartFrom gpfThrows
             (FlattenedLines.text (flattenLineTokens exampleUnterminatedState))
             (FlattenedLines.lineTerminators (flattenLineTokens exampleUnterminatedState))
             (exampleUnterminatedFlat ! 1) = Inl (''a /*'' @ [CHR 10], 2, 0, 4)"
    by (simp add: example_defs eval_defs)
  from unterminated_multiline_token[OF f p m l, of gpfArgs]
       unterminated_multiline_token[OF f p m l, of gpfThrows] f p k l g h
  show ?thesis by simp
qed

subsection \<open>A start fragment closed by its end\<close>






subsection \<open>The kinds cast by the default branch\<close>

lemma enclosedFrom_after_run:
  "enclosedFrom (Some s) ks \<Longrightarrow> contentKindOf s = Some c \<Longrightarrow>
   dropWhile (\<lambda>k. k = c) ks = e # r \<Longrightarrow> e = endKindOf s \<Longrightarrow> enclosedFrom None r"
proof (induction ks)
  case Nil
  then show ?case by simp
next
  case (Cons k ks)
  show ?case
  proof (cases "k = c")
    case True
    with Cons show ?thesis by simp
  next
    case False
    with Cons.prems have "k = e" "r = ks" by simp_all
    with Cons.prems False show ?thesis by (auto split: if_splits)
  qed
qed

lemma dropWhile_map_kind:
  "dropWhile (\<lambda>t. IToken.kind t = c) ts = e # r \<Longrightarrow>
   dropWhile (\<lambda>k. k = c) (map IToken.kind ts) = IToken.kind e # map IToken.kind r"
  by (induction ts) (auto split: if_splits)

lemma loopReaches_enclosed:
  assumes ix: "indexed (flatLineTokens fl)"
    and en: "enclosedFrom None (map IToken.kind (flatLineTokens fl))"
    and r: "loopReaches gpf fl i"
  shows "enclosedFrom None (map IToken.kind (drop i (flatLineTokens fl)))"
  using r
proof (induction rule: loopReaches.induct)
  case loopStart
  from en show ?case by simp
next
  case (loopNext idx toks coms idx' toks' coms')
  let ?fts = "flatLineTokens fl"
  from loopNext.hyps(2) have d: "drop idx ?fts = ?fts ! idx # drop (Suc idx) ?fts"
    by (simp add: Cons_nth_drop_Suc)
  show ?case
  proof (cases "contentKindOf (IToken.kind (?fts ! idx))")
    case None
    from loopNext.hyps(3) have "idx' = Suc idx"
      unfolding factoryStep_single[OF None] by simp
    with loopNext.IH d None show ?thesis by simp
  next
    case (Some c)
    note st = factoryStep_start[OF ix loopNext.hyps(2) Some]
    from loopNext.IH d Some
    have o: "enclosedFrom (Some (IToken.kind (?fts ! idx))) (map IToken.kind (drop (Suc idx) ?fts))"
      by simp
    show ?thesis
    proof (cases "dropWhile (\<lambda>t. IToken.kind t = c) (drop (Suc idx) ?fts)")
      case Nil
      with loopNext.hyps(3) show ?thesis unfolding st by simp
    next
      case (Cons e r)
      with loopNext.hyps(3) have e: "IToken.kind e = endKindOf (IToken.kind (?fts ! idx))"
        and i': "idx' = Suc (flatIndex e)"
        unfolding st by (simp_all split: if_splits)
      from dropWhile_indexed[OF ix Cons] have r: "r = drop (Suc (flatIndex e)) ?fts" by simp
      from enclosedFrom_after_run[OF o Some dropWhile_map_kind[OF Cons] e]
      show ?thesis unfolding i' r .
    qed
  qed
qed

lemma enclosed_default_valid:
  "enclosedFrom None (k # ks) \<Longrightarrow> defaultBranch k \<Longrightarrow> isTokenKind k"
  by (cases k) simp_all

text \<open>
  C10. When no content or end fragment stands outside a run begun by its start fragment, the
  loop of the factory reaches its default branch for kinds of \<open>TokenKind\<close> only, and every
  token of a snapshot that \<open>tryFrom\<close> returns has a kind of \<open>TokenKind\<close>.
\<close>

theorem default_branch_kinds_valid:
  assumes "enclosedFrom None (map IToken.kind (flatLineTokens (flattenLineTokens state)))"
  shows "(\<forall>idx. loopReaches gpf (flattenLineTokens state) idx \<and>
                idx < length (flatLineTokens (flattenLineTokens state)) \<and>
                defaultBranch (IToken.kind (flatLineTokens (flattenLineTokens state) ! idx)) \<longrightarrow>
                isTokenKind (IToken.kind (flatLineTokens (flattenLineTokens state) ! idx))) \<and>
         (\<forall>snapshot. tryFrom gpf state = Some (Ok snapshot) \<longrightarrow>
                list_all (\<lambda>t. isTokenKind (IToken.kind t)) (LexerSnapshot.tokens snapshot))"
proof (intro conjI allI impI)
  fix idx
  let ?fl = "flattenLineTokens state"
  assume a: "loopReaches gpf ?fl idx \<and> idx < length (flatLineTokens ?fl) \<and>
             defaultBranch (IToken.kind (flatLineTokens ?fl ! idx))"
  then have d: "drop idx (flatLineTokens ?fl) =
                 flatLineTokens ?fl ! idx # drop (Suc idx) (flatLineTokens ?fl)"
    by (simp add: Cons_nth_drop_Suc)
  from loopReaches_enclosed[OF indexed_flatten assms, of gpf idx] a d
  have "enclosedFrom None (IToken.kind (flatLineTokens ?fl ! idx) #
          map IToken.kind (drop (Suc idx) (flatLineTokens ?fl)))"
    by simp
  with a show "isTokenKind (IToken.kind (flatLineTokens ?fl ! idx))"
    by (blast intro: enclosed_default_valid)
next
  fix snapshot
  let ?fl = "flattenLineTokens state"
  assume "tryFrom gpf state = Some (Ok snapshot)"
  then obtain items where
    w: "stitchWalk gpf (FlattenedLines.text ?fl) (FlattenedLines.lineTerminators ?fl) None
          (flatLineTokens ?fl) = Inr items"
    and t: "LexerSnapshot.tokens snapshot = tokensOf items"
    unfolding tryFrom_walk resultOf_def by (auto split: sum.splits)
  from stitchWalk_valid_kinds[of None "flatLineTokens ?fl", OF _ w] assms t
  show "list_all (\<lambda>t. isTokenKind (IToken.kind t)) (LexerSnapshot.tokens snapshot)" by simp
qed

theorem default_branch_kinds_valid_witness:
  "enclosedFrom None (map IToken.kind (flatLineTokens (flattenLineTokens exampleCommentState))) \<and>
   loopReaches gpfArgs (flattenLineTokens exampleCommentState) 0 \<and>
   defaultBranch (IToken.kind (flatLineTokens (flattenLineTokens exampleCommentState) ! 0)) \<and>
   isTokenKind (IToken.kind (flatLineTokens (flattenLineTokens exampleCommentState) ! 0)) \<and>
   tryFrom gpfArgs exampleCommentState = Some (Ok exampleCommentSnapshot) \<and>
   map IToken.kind (LexerSnapshot.tokens exampleCommentSnapshot) = [SingleLine Identifier] \<and>
   list_all (\<lambda>t. isTokenKind (IToken.kind t)) (LexerSnapshot.tokens exampleCommentSnapshot)"
proof -
  let ?fl = "flattenLineTokens exampleCommentState"
  have h: "enclosedFrom None (map IToken.kind (flatLineTokens ?fl))"
    by (simp add: example_defs flattenLineTokens_def)
  have r: "loopReaches gpfArgs ?fl 0" by (rule loopStart)
  have l: "0 < length (flatLineTokens ?fl)"
    by (simp add: example_defs flattenLineTokens_def)
  have d: "defaultBranch (IToken.kind (flatLineTokens ?fl ! 0))"
    by (simp add: example_defs flattenLineTokens_def)
  have k: "map IToken.kind (LexerSnapshot.tokens exampleCommentSnapshot) = [SingleLine Identifier]"
    by (simp add: example_defs)
  note inst = default_branch_kinds_valid[OF h, of gpfArgs]
  from inst r l d have v: "isTokenKind (IToken.kind (flatLineTokens ?fl ! 0))" by blast
  from inst example_comment_tryFrom
  have a: "list_all (\<lambda>t. isTokenKind (IToken.kind t)) (LexerSnapshot.tokens exampleCommentSnapshot)"
    by blast
  from h r d v example_comment_tryFrom k a show ?thesis by blast
qed

section \<open>The substring of a grapheme position\<close>

text \<open>
  C9 as stated fails: the text literal of the snapshot below starts on line 0 and ends on
  line 1, and the substring passed on for it is the text of both lines, not the text of
  line 0.
\<close>

theorem grapheme_substring_counterexample:
  "tryFrom gpfArgs exampleTextState = Some (Ok exampleTextSnapshot) \<and>
   lineNumber (positionStart exampleTextToken) = 0 \<and>
   TLine.text (lines exampleTextState ! 0) = [CHR 0x22, CHR ''X''] \<and>
   graphemePositionStartFrom gpfArgs (LexerSnapshot.text exampleTextSnapshot)
     (LexerSnapshot.lineTerminators exampleTextSnapshot) exampleTextToken =
     Inr ([CHR 0x22, CHR ''X'', CHR 10, CHR ''X'', CHR 0x22], 0, 0, 5)"
  by (simp add: example_defs eval_defs)

lemma lineOffset_Cons: "lineOffset (l # rest) (Suc k) = lineLength l + lineOffset rest k"
  by (simp add: lineOffset_def)

lemma lineOffset_0 [simp]: "lineOffset ls 0 = 0"
  by (simp add: lineOffset_def)

lemma substringBoundsLoop_after:
  assumes "ps \<le> off" "m < length ls" "e \<le> length (TLine.text (ls ! m))"
    and "list_all (\<lambda>l. lineTerminator l \<noteq> []) (take m ls)"
  shows "substringBoundsLoop (termsFrom ls off) ps (off + lineOffset ls m + e) (s0, e0) =
           (s0, off + lineOffset ls (Suc m))"
  using assms
proof (induction ls arbitrary: m off)
  case Nil
  then show ?case by simp
next
  case (Cons l rest)
  show ?case
  proof (cases m)
    case 0
    with Cons.prems show ?thesis
      by (simp add: lineOffset_Cons lineLength_def)
  next
    case (Suc m')
    with Cons.prems have m: "m' < length rest" "e \<le> length (TLine.text (rest ! m'))"
      "list_all (\<lambda>l. lineTerminator l \<noteq> []) (take m' rest)" and t: "lineTerminator l \<noteq> []"
      by simp_all
    from Cons.prems(1) have p: "ps \<le> off + lineLength l" by simp
    from t have lt: "length (TLine.text l) < lineLength l"
      by (simp add: lineLength_def)
    note IH = Cons.IH[OF p m]
    show ?thesis
      unfolding Suc lineOffset_Cons using lt IH Cons.prems(1)
      by (auto simp add: add.assoc Let_def lineLength_def)
  qed
qed

lemma substringBoundsLoop_lines:
  assumes "n \<le> m" "m < length ls"
    and "s \<le> length (TLine.text (ls ! n))" "e \<le> length (TLine.text (ls ! m))"
    and "lineOffset ls n + s \<le> lineOffset ls m + e"
    and "list_all (\<lambda>l. lineTerminator l \<noteq> []) (take m ls)"
  shows "substringBoundsLoop (termsFrom ls off)
           (off + lineOffset ls n + s) (off + lineOffset ls m + e) (s0, e0) =
         ((if n = 0 then s0 else off + lineOffset ls n), off + lineOffset ls (Suc m))"
  using assms
proof (induction ls arbitrary: n m off s0)
  case Nil
  then show ?case by simp
next
  case (Cons l rest)
  show ?case
  proof (cases n)
    case n0: 0
    show ?thesis
    proof (cases m)
      case 0
      with n0 Cons.prems show ?thesis
        by (simp add: lineOffset_Cons lineLength_def)
    next
      case (Suc m')
      with Cons.prems have m: "m' < length rest" "e \<le> length (TLine.text (rest ! m'))"
        "list_all (\<lambda>l. lineTerminator l \<noteq> []) (take m' rest)" and t: "lineTerminator l \<noteq> []"
        by simp_all
      from n0 Cons.prems(3) have p: "off + s \<le> off + lineLength l"
        by (simp add: lineLength_def)
      from t have lt: "length (TLine.text l) < lineLength l"
        by (simp add: lineLength_def)
      note A = substringBoundsLoop_after[OF p m, of s0 e0]
      show ?thesis
        unfolding n0 Suc lineOffset_Cons using lt A Cons.prems(3) n0
        by (auto simp add: add.assoc Let_def lineLength_def)
    qed
  next
    case (Suc n')
    with Cons.prems(1) obtain m' where m': "m = Suc m'" "n' \<le> m'"
      by (cases m) simp_all
    with Cons.prems Suc have r: "m' < length rest" "s \<le> length (TLine.text (rest ! n'))"
      "e \<le> length (TLine.text (rest ! m'))"
      "lineOffset rest n' + s \<le> lineOffset rest m' + e"
      "list_all (\<lambda>l. lineTerminator l \<noteq> []) (take m' rest)" and t: "lineTerminator l \<noteq> []"
      by (simp_all add: lineOffset_Cons)
    from t have lt: "length (TLine.text l) < lineLength l"
      by (simp add: lineLength_def)
    note IH = Cons.IH[OF m'(2) r, of "off + lineLength l" "off + lineLength l"]
    show ?thesis
      unfolding Suc m'(1) lineOffset_Cons using lt IH r(4)
      by (auto simp add: add.assoc Let_def lineLength_def)
  qed
qed

lemma textFrom_snoc:
  "ls \<noteq> [] \<Longrightarrow> textFrom (ls @ [l]) = textFrom ls @ lineTerminator (last ls) @ TLine.text l"
  by (induction ls rule: textFrom.induct) simp_all

lemma length_textFrom:
  "ls \<noteq> [] \<Longrightarrow> length (textFrom ls) + length (lineTerminator (last ls)) = lineOffset ls (length ls)"
proof (induction ls rule: textFrom.induct)
  case 1
  then show ?case by simp
next
  case (2 line)
  then show ?case by (simp add: lineOffset_def lineLength_def)
next
  case (3 line v va)
  then show ?case by (simp add: lineOffset_def lineLength_def)
qed

lemma take_append_len: "take (length xs + k) (xs @ ys) = xs @ take k ys"
  by simp

lemma drop_append_len: "drop (length xs + k) (xs @ ys) = drop k ys"
  by simp

lemma textFrom_Cons:
  "rest \<noteq> [] \<Longrightarrow> textFrom (l # rest) = (TLine.text l @ lineTerminator l) @ textFrom rest"
  by (cases rest) simp_all

lemma lineOffset_Cons_len:
  "lineOffset (l # rest) (Suc k) = length (TLine.text l @ lineTerminator l) + lineOffset rest k"
  by (simp add: lineOffset_def lineLength_def)

lemma take_textFrom:
  "m < length ls \<Longrightarrow>
   take (lineOffset ls (Suc m)) (textFrom ls) =
     textFrom (take (Suc m) ls) @ (if Suc m = length ls then [] else lineTerminator (ls ! m))"
proof (induction ls arbitrary: m)
  case Nil
  then show ?case by simp
next
  case (Cons l rest)
  show ?case
  proof (cases rest)
    case Nil
    with Cons.prems show ?thesis
      by (simp add: lineOffset_def lineLength_def)
  next
    case r: (Cons l2 rest2)
    then have ne: "rest \<noteq> []" by simp
    let ?X = "TLine.text l @ lineTerminator l"
    show ?thesis
    proof (cases m)
      case 0
      have "take (length ?X + 0) (?X @ textFrom rest) = ?X @ take 0 (textFrom rest)"
        by (rule take_append_len)
      with 0 r show ?thesis
        by (simp add: lineOffset_def lineLength_def)
    next
      case (Suc m')
      with Cons.prems have m: "m' < length rest" by simp
      have ne': "take (Suc m') rest \<noteq> []" using ne by (cases rest) simp_all
      have "take (lineOffset (l # rest) (Suc (Suc m'))) (textFrom (l # rest)) =
              take (length ?X + lineOffset rest (Suc m')) (?X @ textFrom rest)"
        by (simp only: textFrom_Cons[OF ne] lineOffset_Cons_len)
      also have "\<dots> = ?X @ take (lineOffset rest (Suc m')) (textFrom rest)"
        by (rule take_append_len)
      also have "\<dots> = ?X @ textFrom (take (Suc m') rest) @
                    (if Suc m' = length rest then [] else lineTerminator (rest ! m'))"
        by (simp only: Cons.IH[OF m])
      also have "\<dots> = textFrom (l # take (Suc m') rest) @
                    (if Suc m' = length rest then [] else lineTerminator (rest ! m'))"
        by (simp only: textFrom_Cons[OF ne'] append_assoc)
      finally show ?thesis
        unfolding Suc by simp
    qed
  qed
qed

lemma drop_textFrom:
  "n < length ls \<Longrightarrow> drop (lineOffset ls n) (textFrom ls) = textFrom (drop n ls)"
proof (induction ls arbitrary: n)
  case Nil
  then show ?case by simp
next
  case (Cons l rest)
  show ?case
  proof (cases n)
    case 0
    then show ?thesis by simp
  next
    case (Suc n')
    with Cons.prems have n: "n' < length rest" by simp
    then have ne: "rest \<noteq> []" by auto
    let ?X = "TLine.text l @ lineTerminator l"
    have "drop (lineOffset (l # rest) (Suc n')) (textFrom (l # rest)) =
            drop (length ?X + lineOffset rest n') (?X @ textFrom rest)"
      by (simp only: textFrom_Cons[OF ne] lineOffset_Cons_len)
    also have "\<dots> = drop (lineOffset rest n') (textFrom rest)"
      by (rule drop_append_len)
    also have "\<dots> = textFrom (drop n' rest)"
      by (rule Cons.IH[OF n])
    finally show ?thesis
      unfolding Suc by simp
  qed
qed

lemma lineOffset_take: "k \<le> j \<Longrightarrow> lineOffset (take j ls) k = lineOffset ls k"
  by (simp add: lineOffset_def min_def)

lemma lineOffset_le: "n \<le> m \<Longrightarrow> lineOffset ls n \<le> lineOffset ls m"
proof (induction ls arbitrary: n m)
  case Nil
  then show ?case by (simp add: lineOffset_def)
next
  case (Cons l rest)
  show ?case
  proof (cases n)
    case 0
    then show ?thesis by simp
  next
    case (Suc n')
    with Cons.prems obtain m' where "m = Suc m'" "n' \<le> m'" by (cases m) simp_all
    with Cons.IH[of n' m'] Suc show ?thesis by (simp add: lineOffset_Cons)
  qed
qed

lemma length_textFrom_take:
  "m < length ls \<Longrightarrow>
   length (textFrom (take (Suc m) ls)) = lineOffset ls m + length (TLine.text (ls ! m))"
proof (induction ls arbitrary: m)
  case Nil
  then show ?case by simp
next
  case (Cons l rest)
  show ?case
  proof (cases m)
    case 0
    then show ?thesis by simp
  next
    case (Suc m')
    with Cons.prems have m: "m' < length rest" by simp
    then have ne': "take (Suc m') rest \<noteq> []" by (cases rest) simp_all
    have "textFrom (take (Suc (Suc m')) (l # rest)) =
            (TLine.text l @ lineTerminator l) @ textFrom (take (Suc m') rest)"
      using textFrom_Cons[OF ne'] by simp
    with Cons.IH[OF m] Suc show ?thesis
      by (simp add: lineOffset_Cons lineLength_def)
  qed
qed

lemma substring_take_drop: "a \<le> b \<Longrightarrow> substring xs a b = drop a (take b xs)"
  by (auto simp add: substring_def Let_def min_def max_def drop_take)

lemma substring_lines:
  assumes "n \<le> m" "m < length ls"
  shows "substring (textFrom ls) (lineOffset ls n) (lineOffset ls (Suc m)) =
           textFrom (take (Suc m - n) (drop n ls)) @
           (if Suc m = length ls then [] else lineTerminator (ls ! m))"
proof -
  let ?T = "if Suc m = length ls then [] else lineTerminator (ls ! m)"
  let ?a = "lineOffset ls n"
  have le: "?a \<le> lineOffset ls (Suc m)"
    using assms(1) by (intro lineOffset_le) simp
  have n: "n < length (take (Suc m) ls)" using assms by simp
  have lo: "lineOffset (take (Suc m) ls) n = ?a"
    using assms(1) by (intro lineOffset_take) simp
  have al: "?a \<le> length (textFrom (take (Suc m) ls))"
    using length_textFrom_take[OF assms(2)] lineOffset_le[OF assms(1), of ls] by simp
  have "substring (textFrom ls) ?a (lineOffset ls (Suc m)) =
          drop ?a (take (lineOffset ls (Suc m)) (textFrom ls))"
    by (rule substring_take_drop[OF le])
  also have "\<dots> = drop ?a (textFrom (take (Suc m) ls) @ ?T)"
    by (simp only: take_textFrom[OF assms(2)])
  also have "\<dots> = drop ?a (textFrom (take (Suc m) ls)) @ ?T"
    using al by simp
  also have "drop ?a (textFrom (take (Suc m) ls)) = textFrom (drop n (take (Suc m) ls))"
    using drop_textFrom[OF n] lo by simp
  also have "drop n (take (Suc m) ls) = take (Suc m - n) (drop n ls)"
    by (rule drop_take)
  finally show ?thesis .
qed

text \<open>
  C9, as the code has it. Let the token start on line \<open>n\<close> and end on line \<open>m\<close>, both positions
  inside the text of their lines, and let every line before \<open>m\<close> have a line terminator that is
  not empty. \<open>graphemePositionStartFrom\<close> passes to \<open>graphemePositionFrom\<close> the flattened text
  of the lines \<open>n\<close> to \<open>m\<close>, up to and including the line terminator of line \<open>m\<close> (which the
  flattened text lacks on the last line), together with \<open>lineCodeUnit\<close> and \<open>lineNumber\<close> of
  the start and the code unit of the end. For a token on a single line this is the text of
  that line followed by its line terminator.
\<close>

theorem grapheme_position_line_substring:
  assumes "n \<le> m" and "m < length (lines state)"
    and "TokenPosition.codeUnit (positionStart tok) =
           lineOffset (lines state) n + lineCodeUnit (positionStart tok)"
    and "TokenPosition.codeUnit (positionEnd tok) =
           lineOffset (lines state) m + lineCodeUnit (positionEnd tok)"
    and "lineCodeUnit (positionStart tok) \<le> length (TLine.text (lines state ! n))"
    and "lineCodeUnit (positionEnd tok) \<le> length (TLine.text (lines state ! m))"
    and "TokenPosition.codeUnit (positionStart tok) \<le> TokenPosition.codeUnit (positionEnd tok)"
    and "list_all (\<lambda>l. lineTerminator l \<noteq> []) (take m (lines state))"
  shows "graphemePositionStartFrom gpf (FlattenedLines.text (flattenLineTokens state))
           (FlattenedLines.lineTerminators (flattenLineTokens state)) tok =
         gpf (textFrom (take (Suc m - n) (drop n (lines state))) @
                (if m + 1 = length (lines state) then [] else lineTerminator (lines state ! m)))
             (lineCodeUnit (positionStart tok))
             (lineNumber (positionStart tok))
             (TokenPosition.codeUnit (positionEnd tok)) \<and>
         (n = m \<longrightarrow>
            graphemePositionStartFrom gpf (FlattenedLines.text (flattenLineTokens state))
              (FlattenedLines.lineTerminators (flattenLineTokens state)) tok =
            gpf (TLine.text (lines state ! n) @
                   (if n + 1 = length (lines state) then [] else lineTerminator (lines state ! n)))
                (lineCodeUnit (positionStart tok))
                (lineNumber (positionStart tok))
                (TokenPosition.codeUnit (positionEnd tok)))"
proof -
  let ?ls = "lines state"
  from assms(7) have le: "lineOffset ?ls n + lineCodeUnit (positionStart tok) \<le>
                          lineOffset ?ls m + lineCodeUnit (positionEnd tok)"
    unfolding assms(3,4) .
  have b: "substringBoundsLoop (termsFrom ?ls 0)
             (TokenPosition.codeUnit (positionStart tok))
             (TokenPosition.codeUnit (positionEnd tok)) (0, length (textFrom ?ls)) =
           (lineOffset ?ls n, lineOffset ?ls (Suc m))"
    using substringBoundsLoop_lines[OF assms(1,2,5,6) le assms(8), of 0 0 "length (textFrom ?ls)"]
    unfolding assms(3,4) by (cases n) simp_all
  have g: "graphemePositionStartFrom gpf (FlattenedLines.text (flattenLineTokens state))
           (FlattenedLines.lineTerminators (flattenLineTokens state)) tok =
         gpf (textFrom (take (Suc m - n) (drop n ?ls)) @
                (if m + 1 = length ?ls then [] else lineTerminator (?ls ! m)))
             (lineCodeUnit (positionStart tok))
             (lineNumber (positionStart tok))
             (TokenPosition.codeUnit (positionEnd tok))"
    unfolding graphemePositionStartFrom_def flattenLineTokens_eq
    using b substring_lines[OF assms(1,2)] by simp
  have s: "textFrom (take (Suc m - n) (drop n ?ls)) = TLine.text (?ls ! n)" if "n = m"
  proof -
    from assms(2) have "drop m ?ls = ?ls ! m # drop (Suc m) ?ls"
      by (simp add: Cons_nth_drop_Suc)
    with that show ?thesis by simp
  qed
  from g s show ?thesis by auto
qed

theorem grapheme_position_line_substring_witness:
  "(0::nat) \<le> 1 \<and> (1::nat) < length (lines exampleTextState) \<and>
   positionStart exampleTextToken =
     \<lparr> TokenPosition.codeUnit = 0, lineCodeUnit = 0, lineNumber = 0 \<rparr> \<and>
   positionEnd exampleTextToken =
     \<lparr> TokenPosition.codeUnit = 5, lineCodeUnit = 2, lineNumber = 1 \<rparr> \<and>
   lineOffset (lines exampleTextState) 0 = 0 \<and>
   lineOffset (lines exampleTextState) 1 = 3 \<and>
   length (TLine.text (lines exampleTextState ! 0)) = 2 \<and>
   length (TLine.text (lines exampleTextState ! 1)) = 2 \<and>
   list_all (\<lambda>l. lineTerminator l \<noteq> []) (take 1 (lines exampleTextState)) \<and>
   graphemePositionStartFrom gpfArgs (FlattenedLines.text (flattenLineTokens exampleTextState))
     (FlattenedLines.lineTerminators (flattenLineTokens exampleTextState)) exampleTextToken =
     Inr ([CHR 0x22, CHR ''X'', CHR 10, CHR ''X'', CHR 0x22], 0, 0, 5)"
proof -
  let ?ls = "lines exampleTextState"
  have n: "(0::nat) \<le> 1" by simp
  have m: "(1::nat) < length ?ls" by (simp add: example_defs)
  have ps: "positionStart exampleTextToken =
              \<lparr> TokenPosition.codeUnit = 0, lineCodeUnit = 0, lineNumber = 0 \<rparr>"
    by (simp add: example_defs)
  have pe: "positionEnd exampleTextToken =
              \<lparr> TokenPosition.codeUnit = 5, lineCodeUnit = 2, lineNumber = 1 \<rparr>"
    by (simp add: example_defs)
  have l0: "lineOffset ?ls 0 = 0" by (simp add: lineOffset_def)
  have l1: "lineOffset ?ls 1 = 3" by (simp add: example_defs lineOffset_def lineLength_def)
  have t0: "length (TLine.text (?ls ! 0)) = 2" by (simp add: example_defs)
  have t1: "length (TLine.text (?ls ! 1)) = 2" by (simp add: example_defs)
  have la: "list_all (\<lambda>l. lineTerminator l \<noteq> []) (take 1 ?ls)" by (simp add: example_defs)
  have h3: "TokenPosition.codeUnit (positionStart exampleTextToken) =
              lineOffset ?ls 0 + lineCodeUnit (positionStart exampleTextToken)"
    using ps l0 by simp
  have h4: "TokenPosition.codeUnit (positionEnd exampleTextToken) =
              lineOffset ?ls 1 + lineCodeUnit (positionEnd exampleTextToken)"
    using pe l1 by simp
  have h5: "lineCodeUnit (positionStart exampleTextToken) \<le> length (TLine.text (?ls ! 0))"
    using ps by simp
  have h6: "lineCodeUnit (positionEnd exampleTextToken) \<le> length (TLine.text (?ls ! 1))"
    using pe t1 by simp
  have h7: "TokenPosition.codeUnit (positionStart exampleTextToken) \<le>
            TokenPosition.codeUnit (positionEnd exampleTextToken)"
    using ps pe by simp
  have tx: "textFrom (take (Suc 1 - 0) (drop 0 ?ls)) @
              (if 1 + 1 = length ?ls then [] else lineTerminator (?ls ! 1)) =
            [CHR 0x22, CHR ''X'', CHR 10, CHR ''X'', CHR 0x22]"
    by (simp add: example_defs)
  from grapheme_position_line_substring[OF n m h3 h4 h5 h6 h7 la, of gpfArgs]
  have "graphemePositionStartFrom gpfArgs (FlattenedLines.text (flattenLineTokens exampleTextState))
     (FlattenedLines.lineTerminators (flattenLineTokens exampleTextState)) exampleTextToken =
     Inr ([CHR 0x22, CHR ''X'', CHR 10, CHR ''X'', CHR 0x22], 0, 0, 5)"
    unfolding tx using ps pe by (simp add: gpfArgs_def)
  with n m ps pe l0 l1 t0 t1 la show ?thesis by blast
qed

section \<open>The order of tokens and comments\<close>

lemma before_trans: "before a b \<Longrightarrow> before b c \<Longrightarrow> before a c"
  by (auto simp add: before_def)

lemma spanOf_flatTokenOf:
  "spanOf (flatTokenOf off ln i t) = (off + positionStart t, off + positionEnd t)"
  by (simp add: spanOf_def flatTokenOf_def)

lemma spans_line:
  "map spanOf (map (\<lambda>(i, t). flatTokenOf off ln i t) (enumerate idx ts)) =
     map (\<lambda>t. (off + positionStart t, off + positionEnd t)) ts"
  by (induction ts arbitrary: idx) (simp_all add: spanOf_flatTokenOf)

lemma line_spans_ordered:
  assumes "adjacentOrdered ts"
    and "list_all (\<lambda>t. positionStart t < positionEnd t \<and> positionEnd t \<le> len) ts"
  shows "sorted_wrt before (map (\<lambda>t. (off + positionStart t, off + positionEnd t)) ts)"
  using assms
proof (induction ts rule: adjacentOrdered.induct)
  case 1
  then show ?case by simp
next
  case (2 t)
  then show ?case by simp
next
  case (3 a b rest)
  then have s: "sorted_wrt before (map (\<lambda>t. (off + positionStart t, off + positionEnd t)) (b # rest))"
    by simp
  from "3.prems" have ab: "before (off + positionStart a, off + positionEnd a)
                                  (off + positionStart b, off + positionEnd b)"
    by (simp add: before_def)
  have "before (off + positionStart a, off + positionEnd a) y"
    if "y \<in> set (map (\<lambda>t. (off + positionStart t, off + positionEnd t)) rest)" for y
    using s that before_trans[OF ab] by auto
  with s ab show ?case by auto
qed

lemma flatFrom_ordered:
  "list_all lineInvariant ls \<Longrightarrow>
   sorted_wrt before (map spanOf (flatFrom ls ln off idx)) \<and>
   spansFrom off (map spanOf (flatFrom ls ln off idx))"
proof (induction ls arbitrary: ln off idx)
  case Nil
  then show ?case by (simp add: spansFrom_def)
next
  case (Cons l rest)
  let ?A = "map (\<lambda>t. (off + positionStart t, off + positionEnd t)) (TLine.tokens l)"
  let ?B = "map spanOf (flatFrom rest (Suc ln) (off + lineLength l) (idx + length (TLine.tokens l)))"
  from Cons.prems have li: "lineInvariant l" and r: "list_all lineInvariant rest" by simp_all
  from li have tl: "list_all (\<lambda>t. positionStart t < positionEnd t \<and>
                       positionEnd t \<le> length (TLine.text l)) (TLine.tokens l)"
    by (simp add: lineInvariant_def tokenInLine_def list_all_iff)
  from li have "adjacentOrdered (TLine.tokens l)" by (simp add: lineInvariant_def)
  then have sA: "sorted_wrt before ?A" using tl by (rule line_spans_ordered)
  from Cons.IH[OF r] have sB: "sorted_wrt before ?B" and fB: "spansFrom (off + lineLength l) ?B"
    by simp_all
  have cross: "before a b" if "a \<in> set ?A" "b \<in> set ?B" for a b
  proof -
    from that(1) tl have "fst a < snd a" "snd a \<le> off + length (TLine.text l)"
      by (auto simp add: list_all_iff)
    moreover from that(2) fB have "off + lineLength l \<le> fst b"
      by (auto simp add: spansFrom_def list_all_iff)
    ultimately show ?thesis by (simp add: before_def lineLength_def)
  qed
  have fA: "spansFrom off ?A" using tl by (auto simp add: spansFrom_def list_all_iff)
  have fB': "spansFrom off ?B" using fB by (auto simp add: spansFrom_def list_all_iff)
  have eq: "map spanOf (flatFrom (l # rest) ln off idx) = ?A @ ?B"
    by (simp add: spans_line del: map_map)
  show ?case
    unfolding eq using sA sB cross fA fB'
    by (simp add: sorted_wrt_append spansFrom_def)
qed

lemma spanOfEmitted_single [simp]: "spanOfEmitted (emitSingle t) = spanOf t"
  by (cases "IToken.kind t")
     (simp_all add: emitSingle_def spanOf_def castToken_def readLineComment_def
        readSingleLineMultilineComment_def)

lemma spanOfEmitted_stitched [simp]:
  "spanOfEmitted (emitStitched tx s e) = (fst (spanOf s), snd (spanOf e))"
  by (cases "IToken.kind s") (simp_all add: emitStitched_def spanOf_def)

lemma stitchWalk_ordered:
  assumes "sorted_wrt before (map spanOf (openTokens opn ts))"
    and "spansFrom lo (map spanOf (openTokens opn ts))"
    and "stitchWalk gpf tx lts opn ts = Inr items"
  shows "sorted_wrt before (map spanOfEmitted items) \<and> spansFrom lo (map spanOfEmitted items)"
  using assms
proof (induction ts arbitrary: opn items lo)
  case Nil
  then show ?case by (cases opn) (simp_all add: spansFrom_def)
next
  case (Cons t ts)
  show ?case
  proof (cases opn)
    case None
    show ?thesis
    proof (cases "contentKindOf (IToken.kind t)")
      case n: None
      with Cons.prems(3) None obtain items' where
        w: "stitchWalk gpf tx lts None ts = Inr items'" and i: "items = emitSingle t # items'"
        by (cases "stitchWalk gpf tx lts None ts") auto
      from Cons.prems(1,2) None have
        st: "sorted_wrt before (map spanOf (openTokens None ts))"
        and bt: "\<forall>x\<in>set ts. before (spanOf t) (spanOf x)"
        and ne: "lo \<le> fst (spanOf t)" "fst (spanOf t) < snd (spanOf t)"
        by (simp_all add: openTokens_def spansFrom_def)
      from Cons.prems(2) None have nts: "\<forall>x\<in>set ts. fst (spanOf x) < snd (spanOf x)"
        by (simp add: openTokens_def spansFrom_def list_all_iff)
      from bt nts have fr: "spansFrom (snd (spanOf t)) (map spanOf (openTokens None ts))"
        by (simp add: openTokens_def spansFrom_def list_all_iff before_def)
      from Cons.IH[OF st fr w] have
        si: "sorted_wrt before (map spanOfEmitted items')"
        and fi: "spansFrom (snd (spanOf t)) (map spanOfEmitted items')"
        by simp_all
      from fi ne have "\<forall>x\<in>set items'. before (spanOf t) (spanOfEmitted x)"
        by (auto simp add: spansFrom_def list_all_iff before_def)
      moreover from fi ne have "spansFrom lo (map spanOfEmitted items')"
        by (auto simp add: spansFrom_def list_all_iff)
      ultimately show ?thesis
        using si ne i by (simp add: spansFrom_def)
    next
      case (Some c)
      with Cons.prems None show ?thesis
        using Cons.IH[of "Some t" lo items] by (simp add: openTokens_def)
    qed
  next
    case (Some s)
    show ?thesis
    proof (cases "Some (IToken.kind t) = contentKindOf (IToken.kind s)")
      case True
      from Cons.prems(1,2) Some have
        "sorted_wrt before (map spanOf (openTokens (Some s) ts))"
        "spansFrom lo (map spanOf (openTokens (Some s) ts))"
        by (simp_all add: openTokens_def spansFrom_def)
      with Cons.prems(3) Some True show ?thesis
        using Cons.IH[of "Some s" lo items] by simp
    next
      case False
      with Cons.prems(3) Some obtain items' where
        e: "IToken.kind t = endKindOf (IToken.kind s)"
        and w: "stitchWalk gpf tx lts None ts = Inr items'"
        and i: "items = emitStitched tx s t # items'"
        by (cases "stitchWalk gpf tx lts None ts") (auto split: if_splits)
      from Cons.prems(1,2) Some have
        st: "sorted_wrt before (map spanOf (openTokens None ts))"
        and bst: "before (spanOf s) (spanOf t)"
        and bt: "\<forall>x\<in>set ts. before (spanOf t) (spanOf x)"
        and ne: "lo \<le> fst (spanOf s)" "fst (spanOf s) < snd (spanOf s)"
                "fst (spanOf t) < snd (spanOf t)"
        by (simp_all add: openTokens_def spansFrom_def)
      from Cons.prems(2) Some have nts: "\<forall>x\<in>set ts. fst (spanOf x) < snd (spanOf x)"
        by (simp add: openTokens_def spansFrom_def list_all_iff)
      from bt nts have fr: "spansFrom (snd (spanOf t)) (map spanOf (openTokens None ts))"
        by (simp add: openTokens_def spansFrom_def list_all_iff before_def)
      from Cons.IH[OF st fr w] have
        si: "sorted_wrt before (map spanOfEmitted items')"
        and fi: "spansFrom (snd (spanOf t)) (map spanOfEmitted items')"
        by simp_all
      from bst ne have lt: "fst (spanOf s) < snd (spanOf t)"
        by (simp add: before_def)
      from fi lt have "\<forall>x\<in>set items'. before (fst (spanOf s), snd (spanOf t)) (spanOfEmitted x)"
        by (auto simp add: spansFrom_def list_all_iff before_def)
      moreover from fi lt ne have "spansFrom lo (map spanOfEmitted items')"
        by (auto simp add: spansFrom_def list_all_iff)
      ultimately show ?thesis
        using si ne lt i by (simp add: spansFrom_def)
    qed
  qed
qed


lemma mergeByStart_Nil2 [simp]: "mergeByStart xs [] = xs"
  by (cases xs) simp_all

lemma spans_tokensOf_subset:
  "set (map spanOf (tokensOf items)) \<subseteq> set (map spanOfEmitted items)"
  by (induction items rule: tokensOf.induct) auto

lemma spans_commentsOf_subset:
  "set (map spanOf (commentsOf items)) \<subseteq> set (map spanOfEmitted items)"
  by (induction items rule: commentsOf.induct) auto

lemma merge_emitted:
  "sorted_wrt before (map spanOfEmitted items) \<Longrightarrow>
   mergeByStart (map spanOf (tokensOf items)) (map spanOf (commentsOf items)) =
     map spanOfEmitted items"
proof (induction items)
  case Nil
  then show ?case by simp
next
  case (Cons x rest)
  then have IH: "mergeByStart (map spanOf (tokensOf rest)) (map spanOf (commentsOf rest)) =
                   map spanOfEmitted rest"
    and bx: "\<forall>y\<in>set (map spanOfEmitted rest). before (spanOfEmitted x) y"
    by simp_all
  show ?case
  proof (cases x)
    case (EmittedToken t)
    show ?thesis
    proof (cases "map spanOf (commentsOf rest)")
      case Nil
      with IH EmittedToken show ?thesis by simp
    next
      case (Cons b bs)
      then have "b \<in> set (map spanOfEmitted rest)"
        using spans_commentsOf_subset[of rest] by (metis list.set_intros(1) subsetD)
      with bx EmittedToken have "fst (spanOf t) \<le> fst b" by (auto simp add: before_def)
      with IH EmittedToken Cons show ?thesis by simp
    qed
  next
    case (EmittedComment c)
    show ?thesis
    proof (cases "map spanOf (tokensOf rest)")
      case Nil
      with IH EmittedComment show ?thesis by simp
    next
      case (Cons a as)
      then have "a \<in> set (map spanOfEmitted rest)"
        using spans_tokensOf_subset[of rest] by (metis list.set_intros(1) subsetD)
      with bx EmittedComment have "\<not> fst a \<le> fst (spanOf c)" by (auto simp add: before_def)
      with IH EmittedComment Cons show ?thesis by simp
    qed
  qed
qed

lemma sorted_wrt_tokensOf:
  "sorted_wrt before (map spanOfEmitted items) \<Longrightarrow>
   sorted_wrt before (map spanOf (tokensOf items))"
proof (induction items rule: tokensOf.induct)
  case 1
  then show ?case by simp
next
  case (2 t rest)
  then show ?case using spans_tokensOf_subset[of rest] by auto
next
  case (3 c rest)
  then show ?case by simp
qed

lemma sorted_wrt_commentsOf:
  "sorted_wrt before (map spanOfEmitted items) \<Longrightarrow>
   sorted_wrt before (map spanOf (commentsOf items))"
proof (induction items rule: commentsOf.induct)
  case 1
  then show ?case by simp
next
  case (2 t rest)
  then show ?case by simp
next
  case (3 c rest)
  then show ?case using spans_commentsOf_subset[of rest] by auto
qed

lemma sorted_starts:
  "sorted_wrt before (map spanOf xs) \<Longrightarrow>
   sorted (map (\<lambda>t. TokenPosition.codeUnit (positionStart t)) xs)"
proof (induction xs)
  case Nil
  then show ?case by simp
next
  case (Cons x xs)
  then show ?case by (auto simp add: before_def spanOf_def less_imp_le)
qed

text \<open>
  C8, as the code has it. When on every line each token is not empty, ends inside the text of
  the line and ends no later than the next token starts, and every start fragment is closed,
  \<open>tryFrom\<close> returns a snapshot whose tokens and whose comments are sorted by the code unit
  of their start, and the two sequences merged by that code unit are strictly increasing and
  do not overlap.
\<close>

theorem snapshot_order:
  assumes "list_all lineInvariant (lines state)"
    and "closedFrom None (map IToken.kind (flatLineTokens (flattenLineTokens state)))"
  shows "\<exists>snapshot.
           tryFrom gpf state = Some (Ok snapshot) \<and>
           sorted (map (\<lambda>t. TokenPosition.codeUnit (positionStart t))
                     (LexerSnapshot.tokens snapshot)) \<and>
           sorted (map (\<lambda>c. TokenPosition.codeUnit (positionStart c))
                     (LexerSnapshot.comments snapshot)) \<and>
           sorted_wrt before
             (mergeByStart (map spanOf (LexerSnapshot.tokens snapshot))
                (map spanOf (LexerSnapshot.comments snapshot)))"
proof -
  let ?fl = "flattenLineTokens state"
  from stitchWalk_closed_prefix[of None "flatLineTokens ?fl" gpf
         "FlattenedLines.text ?fl" "FlattenedLines.lineTerminators ?fl" "[]"] assms(2)
  obtain items where
    w: "stitchWalk gpf (FlattenedLines.text ?fl) (FlattenedLines.lineTerminators ?fl) None
          (flatLineTokens ?fl) = Inr items"
    by auto
  have fo: "sorted_wrt before (map spanOf (openTokens None (flatLineTokens ?fl)))"
           "spansFrom 0 (map spanOf (openTokens None (flatLineTokens ?fl)))"
    using flatFrom_ordered[OF assms(1), of 0 0 0]
    by (simp_all add: flattenLineTokens_eq openTokens_def)
  from stitchWalk_ordered[OF fo w] have so: "sorted_wrt before (map spanOfEmitted items)"
    by simp
  let ?snap = "\<lparr> LexerSnapshot.text = FlattenedLines.text ?fl, tokens = tokensOf items,
                  comments = commentsOf items,
                  lineTerminators = FlattenedLines.lineTerminators ?fl \<rparr>"
  have r: "tryFrom gpf state = Some (Ok ?snap)"
    unfolding tryFrom_walk w by (simp add: resultOf_def)
  have t: "sorted (map (\<lambda>t. TokenPosition.codeUnit (positionStart t)) (tokensOf items))"
    by (rule sorted_starts[OF sorted_wrt_tokensOf[OF so]])
  have c: "sorted (map (\<lambda>c. TokenPosition.codeUnit (positionStart c)) (commentsOf items))"
    by (rule sorted_starts[OF sorted_wrt_commentsOf[OF so]])
  have m: "sorted_wrt before
             (mergeByStart (map spanOf (tokensOf items)) (map spanOf (commentsOf items)))"
    unfolding merge_emitted[OF so] by (rule so)
  from r t c m show ?thesis by simp
qed

text \<open>
  C8 as stated fails, in two ways. On the only line of the first state below every token
  ends no later than the next one starts and there is no fragment, yet the first token is empty
  and both tokens of the snapshot start at code unit 0. In the second state each line has one
  token, the token of the first line ends behind the text of its line, and the two tokens of
  the snapshot overlap.
\<close>

theorem snapshot_order_counterexample:
  "adjacentOrdered (TLine.tokens (lines exampleEmptyTokenState ! 0)) \<and>
   length (lines exampleEmptyTokenState) = 1 \<and>
   closedFrom None (map IToken.kind (flatLineTokens (flattenLineTokens exampleEmptyTokenState))) \<and>
   tryFrom gpfArgs exampleEmptyTokenState = Some (Ok exampleEmptyTokenSnapshot) \<and>
   mergeByStart (map spanOf (LexerSnapshot.tokens exampleEmptyTokenSnapshot))
     (map spanOf (LexerSnapshot.comments exampleEmptyTokenSnapshot)) = [(0, 0), (0, 1)] \<and>
   \<not> sorted_wrt before [(0, 0), (0, 1)] \<and>
   list_all (\<lambda>line. adjacentOrdered (TLine.tokens line)) (lines exampleOverrunState) \<and>
   closedFrom None (map IToken.kind (flatLineTokens (flattenLineTokens exampleOverrunState))) \<and>
   tryFrom gpfArgs exampleOverrunState = Some (Ok exampleOverrunSnapshot) \<and>
   mergeByStart (map spanOf (LexerSnapshot.tokens exampleOverrunSnapshot))
     (map spanOf (LexerSnapshot.comments exampleOverrunSnapshot)) = [(0, 5), (3, 5)] \<and>
   \<not> sorted_wrt before [(0, 5), (3, 5)]"
  by (simp add: example_defs eval_defs spanOf_def before_def)

theorem snapshot_order_witness:
  "list_all lineInvariant (lines exampleCommentState) \<and>
   closedFrom None (map IToken.kind (flatLineTokens (flattenLineTokens exampleCommentState))) \<and>
   tryFrom gpfArgs exampleCommentState = Some (Ok exampleCommentSnapshot) \<and>
   mergeByStart (map spanOf (LexerSnapshot.tokens exampleCommentSnapshot))
     (map spanOf (LexerSnapshot.comments exampleCommentSnapshot)) = [(0, 3), (4, 13)] \<and>
   sorted_wrt before [(0, 3), (4, 13)]"
proof -
  have h1: "list_all lineInvariant (lines exampleCommentState)"
    by (simp add: example_defs lineInvariant_def tokenInLine_def)
  have h2: "closedFrom None (map IToken.kind (flatLineTokens (flattenLineTokens exampleCommentState)))"
    by (simp add: example_defs flattenLineTokens_def)
  have m: "mergeByStart (map spanOf (LexerSnapshot.tokens exampleCommentSnapshot))
     (map spanOf (LexerSnapshot.comments exampleCommentSnapshot)) = [(0, 3), (4, 13)]"
    by (simp add: example_defs spanOf_def)
  from snapshot_order[OF h1 h2, of gpfArgs] example_comment_tryFrom m
  have "sorted_wrt before [(0, 3), (4, 13)]" by auto
  with h1 h2 example_comment_tryFrom m show ?thesis by blast
qed

end
